theory Spec2Isabelle
  imports Complex_Main "HOL-Library.Char_ord" "HOL-Library.List_Lexorder"
    "HOL-Library.Sublist" "HOL-Library.Multiset"
begin

section \<open>Vessel/spill correlation (app.py): data model\<close>

text \<open>
  The program is a pandas/geopandas script. A data frame is modelled by the list of
  its column names together with the list of its rows; a row is a record with one
  field per column the script reads. Coordinates and areas are floats in the program
  and exact rationals here; no statement below depends on rounding. The identifying
  columns \<open>mmsi\<close> and \<open>spill_id\<close> are taken to hold proper (non-null) values.

  A timestamp is a number of nanoseconds (the unit of pandas' \<open>datetime64[ns]\<close>)
  together with a flag that says whether it carries a time zone. The values that the
  64-bit representation can hold are those of \<open>datetime64_ok\<close>; arithmetic that leaves
  this range raises, and so does comparing a timestamp that has a time zone with one
  that has none.
\<close>

definition datetime64_ok :: "int \<Rightarrow> bool" where
  "datetime64_ok t = (- 9223372036854775807 \<le> t \<and> t \<le> 9223372036854775807)"

text \<open>One hour, in nanoseconds.\<close>

definition hour :: int where
  "hour = 3600000000000"

text \<open>
  The exceptions the script can meet: a missing column or index label (\<open>KeyError\<close>,
  with the missing names), a \<open>timedelta\<close> or a timestamp out of range
  (\<open>OverflowError\<close>, \<open>OutOfBoundsTimedelta\<close>), and an operation between values of
  the wrong types (\<open>TypeError\<close>).
\<close>

datatype error = KeyError "string list" | OverflowError | OutOfBoundsTimedelta | TypeError

type_synonym point = "rat \<times> rat"

record 'r frame =
  columns :: "string list"
  rows :: "'r list"

text \<open>\<open>gpd.GeoDataFrame()\<close>: a frame with no columns and no rows.\<close>

definition GeoDataFrame :: "'r frame" where
  "GeoDataFrame = \<lparr>columns = [], rows = []\<rparr>"

text \<open>\<open>df.empty\<close>: some axis has length zero.\<close>

definition df_empty :: "'r frame \<Rightarrow> bool" where
  "df_empty df = (rows df = [] \<or> columns df = [])"

text \<open>
  A spill row after \<open>load_spills_data\<close>, and a position fix after \<open>load_ais_data\<close>.
  \<open>spill_index\<close> and \<open>fix_index\<close> are the rows' index labels (their positions in the
  file, which \<open>dropna\<close> leaves in place). \<open>vessel_name\<close> and \<open>vessel_type\<close> are the
  optional columns \<open>vessel_name\<close> and \<open>VesselType\<close>; \<open>None\<close> is a missing value.
  \<open>detection_tz\<close> and \<open>timestamp_tz\<close> say whether the timestamp beside them carries
  a time zone.
\<close>

record spill_record =
  spill_index :: nat
  spill_id :: string
  polygon :: "point list"
  detection_date :: int
  detection_tz :: bool
  area_sq_km :: rat

record vessel_fix =
  fix_index :: nat
  mmsi :: int
  geometry :: point
  timestamp :: int
  timestamp_tz :: bool
  vessel_name :: "string option"
  vessel_type :: "string option"

text \<open>
  A row of the spatial join carries the columns of the fix (whose index label it
  inherits) and of the spill. \<open>time_to_detection\<close> is the column that the
  prime-suspect step adds later; it is \<open>None\<close> until then.
\<close>

record candidate =
  c_fix :: vessel_fix
  c_spill :: spill_record
  time_to_detection :: "int option"

section \<open>The spatial predicate\<close>

text \<open>
  The containment test is not written in app.py: the script passes
  \<open>predicate='within'\<close> to \<open>geopandas.sjoin\<close>. For a point and a polygon that
  predicate holds when the point lies in the interior of the polygon; a point on the
  polygon's boundary is not within it. The predicate is modelled by locating the
  point against the polygon's ring with exact arithmetic (edge test first, then ray
  crossing parity). \<open>sjoin\<close> below takes the predicate as an argument, as the
  library function does, so that the matcher's own logic is stated for any predicate.
\<close>

datatype location = Interior | Boundary | Exterior

definition cross :: "point \<Rightarrow> point \<Rightarrow> point \<Rightarrow> rat" where
  "cross a b p = (fst b - fst a) * (snd p - snd a) - (snd b - snd a) * (fst p - fst a)"

definition on_segment :: "point \<Rightarrow> point \<times> point \<Rightarrow> bool" where
  "on_segment p e =
     (case e of (a, b) \<Rightarrow>
        cross a b p = 0 \<and>
        min (fst a) (fst b) \<le> fst p \<and> fst p \<le> max (fst a) (fst b) \<and>
        min (snd a) (snd b) \<le> snd p \<and> snd p \<le> max (snd a) (snd b))"

definition crosses_ray :: "point \<Rightarrow> point \<times> point \<Rightarrow> bool" where
  "crosses_ray p e =
     (case e of (a, b) \<Rightarrow>
        (snd p < snd a) \<noteq> (snd p < snd b) \<and>
        fst p < fst a + (snd p - snd a) * (fst b - fst a) / (snd b - snd a))"

definition ring_edges :: "point list \<Rightarrow> (point \<times> point) list" where
  "ring_edges vs = (case vs of [] \<Rightarrow> [] | v # ws \<Rightarrow> zip vs (ws @ [v]))"

definition locate :: "point \<Rightarrow> point list \<Rightarrow> location" where
  "locate p vs =
     (if list_ex (on_segment p) (ring_edges vs) then Boundary
      else if odd (length (filter (crosses_ray p) (ring_edges vs))) then Interior
      else Exterior)"

definition within_predicate :: "point \<Rightarrow> point list \<Rightarrow> bool" where
  "within_predicate p poly = (locate p poly = Interior)"


section \<open>The candidate matcher\<close>

text \<open>
  \<open>gpd.sjoin(left, right, predicate=...)\<close>, inner join: one row per pair of a left
  row and a right row whose geometries satisfy the predicate, under the left row's
  index label. The joined columns are the left columns, \<open>index_right\<close> and the
  right columns but its geometry (column names of the two sides are taken to be
  different, so no suffix is added).
\<close>

definition join_row :: "vessel_fix \<Rightarrow> spill_record \<Rightarrow> candidate" where
  "join_row f s = \<lparr>c_fix = f, c_spill = s, time_to_detection = None\<rparr>"

definition sjoin ::
  "(point \<Rightarrow> point list \<Rightarrow> bool) \<Rightarrow> vessel_fix frame \<Rightarrow> spill_record frame \<Rightarrow> candidate frame"
where
  "sjoin predicate left_df right_df =
     \<lparr>columns = columns left_df @ [''index_right''] @
                 filter (\<lambda>c. c \<noteq> ''geometry'') (columns right_df),
      rows = concat (map (\<lambda>f. map (join_row f)
                 (filter (\<lambda>s. predicate (geometry f) (polygon s)) (rows right_df)))
               (rows left_df))\<rparr>"

text \<open>
  Line 132, \<open>timedelta(hours=h)\<close>, in nanoseconds. Python's \<open>timedelta\<close> holds at
  most 999999999 days in either direction and raises \<open>OverflowError\<close> beyond.
\<close>

definition timedelta_hours :: "int \<Rightarrow> error + int" where
  "timedelta_hours h =
     (if h < - 23999999976 \<or> 23999999999 < h then Inl OverflowError
      else Inr (h * hour))"

text \<open>
  Line 135 subtracts the \<open>timedelta\<close> from a \<open>datetime64[ns]\<close> column. pandas first
  turns it into a 64-bit count of nanoseconds, which raises \<open>OutOfBoundsTimedelta\<close>
  when it does not fit.
\<close>

definition to_timedelta64 :: "int \<Rightarrow> error + int" where
  "to_timedelta64 td = (if datetime64_ok td then Inr td else Inl OutOfBoundsTimedelta)"

text \<open>Comparing the two timestamp columns (line 134) raises \<open>TypeError\<close> when one
  side has a time zone and the other has none.\<close>

definition tz_mismatch :: "candidate \<Rightarrow> bool" where
  "tz_mismatch c = (timestamp_tz (c_fix c) \<noteq> detection_tz (c_spill c))"

text \<open>The subtraction itself raises \<open>OverflowError\<close> when a result leaves the range
  of \<open>datetime64[ns]\<close>.\<close>

definition window_overflow :: "int \<Rightarrow> candidate \<Rightarrow> bool" where
  "window_overflow time_delta c = (\<not> datetime64_ok (detection_date (c_spill c) - time_delta))"

definition in_window :: "int \<Rightarrow> candidate \<Rightarrow> bool" where
  "in_window time_delta c =
     (timestamp (c_fix c) \<le> detection_date (c_spill c) \<and>
      timestamp (c_fix c) \<ge> detection_date (c_spill c) - time_delta)"

text \<open>
  \<open>find_candidates\<close>; \<open>None\<close> is the loaders' \<open>None\<close>. The steps raise in the order
  of the source: the \<open>timedelta\<close> (line 132), the first comparison (line 134), the
  subtraction (line 135). With an empty join the function returns before any of them.
\<close>

definition find_candidates ::
  "spill_record frame option \<Rightarrow> vessel_fix frame option \<Rightarrow> int \<Rightarrow> error + candidate frame"
where
  "find_candidates spills_gdf vessels_gdf time_window_hours =
     (case spills_gdf of
        None \<Rightarrow> Inr GeoDataFrame
      | Some spills \<Rightarrow>
          (case vessels_gdf of
             None \<Rightarrow> Inr GeoDataFrame
           | Some vessels \<Rightarrow>
               (let candidates = sjoin within_predicate vessels spills in
                if df_empty candidates then Inr GeoDataFrame
                else
                  (case timedelta_hours time_window_hours of
                     Inl e \<Rightarrow> Inl e
                   | Inr time_delta \<Rightarrow>
                       if list_ex tz_mismatch (rows candidates) then Inl TypeError
                       else
                         (case to_timedelta64 time_delta of
                            Inl e \<Rightarrow> Inl e
                          | Inr td \<Rightarrow>
                              if list_ex (window_overflow td) (rows candidates)
                              then Inl OverflowError
                              else Inr (candidates\<lparr>rows :=
                                          filter (in_window td) (rows candidates)\<rparr>))))))"

section \<open>Deduplication of incidents\<close>

text \<open>
  \<open>DataFrame.drop_duplicates(subset=...)\<close> with the default \<open>keep='first'\<close>: a row is
  dropped when an earlier row has the same values in the subset columns. \<open>seen\<close> holds
  the keys met so far.
\<close>

fun drop_seen :: "('a \<Rightarrow> 'k) \<Rightarrow> 'k list \<Rightarrow> 'a list \<Rightarrow> 'a list" where
  "drop_seen key seen [] = []"
| "drop_seen key seen (x # xs) =
     (if key x \<in> set seen then drop_seen key seen xs
      else x # drop_seen key (key x # seen) xs)"

definition drop_duplicates_by :: "('a \<Rightarrow> 'k) \<Rightarrow> 'a list \<Rightarrow> 'a list" where
  "drop_duplicates_by key xs = drop_seen key [] xs"

definition incident_key :: "candidate \<Rightarrow> string \<times> int" where
  "incident_key c = (spill_id (c_spill c), mmsi (c_fix c))"

definition missing_columns :: "string list \<Rightarrow> 'r frame \<Rightarrow> string list" where
  "missing_columns names df = filter (\<lambda>n. n \<notin> set (columns df)) names"

text \<open>
  \<open>df.drop_duplicates(subset=['spill_id', 'mmsi'])\<close> (line 186) and
  \<open>df.drop_duplicates(subset=['mmsi', 'spill_id'])\<close> (line 209): the same key. An empty
  frame is returned as a copy before the subset is looked at; otherwise a subset
  column that the frame lacks raises \<open>KeyError\<close>.
\<close>

definition drop_duplicates :: "candidate frame \<Rightarrow> error + candidate frame" where
  "drop_duplicates df =
     (if df_empty df then Inr df
      else if missing_columns [''mmsi'', ''spill_id''] df \<noteq> []
        then Inl (KeyError (missing_columns [''mmsi'', ''spill_id''] df))
      else Inr (df\<lparr>rows := drop_duplicates_by incident_key (rows df)\<rparr>))"

section \<open>Grouping, sorting and joining\<close>

text \<open>
  \<open>df.groupby(col)\<close> with the default \<open>sort=True\<close>: one group per distinct key, the
  groups in ascending key order, the rows of a group in frame order.
\<close>

definition groupby :: "('a \<Rightarrow> 'k::linorder) \<Rightarrow> 'a list \<Rightarrow> ('k \<times> 'a list) list" where
  "groupby key xs =
     map (\<lambda>k. (k, filter (\<lambda>x. key x = k) xs)) (sort (remdups (map key xs)))"

text \<open>
  \<open>sort_values(col, ascending=False)\<close> is called with the default \<open>kind='quicksort'\<close>.
  The library computes the positions of the column's items in non-increasing order
  and takes the rows at these positions. Quicksort is not a stable sort, so the
  order of equal items is not fixed by the call; the position function is therefore
  a parameter \<open>nargsort\<close>, and \<open>nargsort_ok\<close> is what every implementation
  guarantees: a permutation of the positions along which the items do not increase.
  (The positions it returns are always in range, so \<open>xs ! i\<close> is a row.)
\<close>

definition sort_values_desc :: "('v list \<Rightarrow> nat list) \<Rightarrow> ('a \<Rightarrow> 'v) \<Rightarrow> 'a list \<Rightarrow> 'a list" where
  "sort_values_desc nargsort by xs = map (\<lambda>i. xs ! i) (nargsort (map by xs))"

definition nargsort_ok :: "('v::linorder list \<Rightarrow> nat list) \<Rightarrow> bool" where
  "nargsort_ok nargsort =
     (\<forall>items. distinct (nargsort items) \<and> set (nargsort items) = {0..<length items} \<and>
        sorted_wrt (\<ge>) (map (\<lambda>i. items ! i) (nargsort items)))"

text \<open>Two position functions that sort: the first keeps equal items in their
  original order, the second reverses them.\<close>

definition nargsort_stable :: "'v::linorder list \<Rightarrow> nat list" where
  "nargsort_stable items = rev (sort_key (\<lambda>i. items ! i) (rev [0..<length items]))"

definition nargsort_reversing :: "'v::linorder list \<Rightarrow> nat list" where
  "nargsort_reversing items = rev (sort_key (\<lambda>i. items ! i) [0..<length items])"

text \<open>
  \<open>pd.merge(left, right, on='mmsi', how='left')\<close>: every left row, in order, once per
  right row with the same \<open>mmsi\<close> (in the right frame's order), or once with a
  missing name when no right row matches.
\<close>

definition joined_rows ::
  "(int \<times> string option) list \<Rightarrow> int \<times> 'v \<Rightarrow> (int \<times> 'v \<times> string option) list"
where
  "joined_rows right l =
     (case l of (m, v) \<Rightarrow>
        (case filter (\<lambda>(m', n). m' = m) right of
           [] \<Rightarrow> [(m, v, None)]
         | matches \<Rightarrow> map (\<lambda>(m', n). (m, v, n)) matches))"

definition merge_left ::
  "(int \<times> 'v) list \<Rightarrow> (int \<times> string option) list \<Rightarrow> (int \<times> 'v \<times> string option) list"
where
  "merge_left left right = concat (map (joined_rows right) left)"

section \<open>Analytics by vessel (tab 1)\<close>

text \<open>\<open>unique_incidents[['mmsi', 'vessel_name']].drop_duplicates()\<close>.\<close>

definition ship_names :: "candidate frame \<Rightarrow> (int \<times> string option) list" where
  "ship_names unique_incidents =
     drop_duplicates_by id
       (map (\<lambda>c. (mmsi (c_fix c), vessel_name (c_fix c))) (rows unique_incidents))"

text \<open>The two lines that join the names onto a ranking table when the candidates
  have a \<open>vessel_name\<close> column. A ranking row is \<open>(mmsi, value, name)\<close>; without the
  column the table has no name column and the third component stays \<open>None\<close>.\<close>

definition with_ship_names ::
  "string \<Rightarrow> candidate frame \<Rightarrow> (int \<times> 'v) list \<Rightarrow> (int \<times> 'v \<times> string option) frame"
where
  "with_ship_names value_column unique_incidents ranked =
     (if ''vessel_name'' \<in> set (columns unique_incidents)
      then \<lparr>columns = [''mmsi'', value_column, ''vessel_name''],
            rows = merge_left ranked (ship_names unique_incidents)\<rparr>
      else \<lparr>columns = [''mmsi'', value_column],
            rows = map (\<lambda>(m, v). (m, v, None)) ranked\<rparr>)"

text \<open>\<open>unique_incidents.groupby('mmsi').size()\<close>, sorted, with names.\<close>

definition incident_counts :: "candidate list \<Rightarrow> (int \<times> nat) list" where
  "incident_counts cs = map (\<lambda>(m, g). (m, length g)) (groupby (\<lambda>c. mmsi (c_fix c)) cs)"

text \<open>The ranking before the names are joined on.\<close>

definition ranked_incident_counts :: "(nat list \<Rightarrow> nat list) \<Rightarrow> candidate frame \<Rightarrow> (int \<times> nat) list" where
  "ranked_incident_counts nargsort unique_incidents =
     sort_values_desc nargsort snd (incident_counts (rows unique_incidents))"

definition ship_incident_counts ::
  "(nat list \<Rightarrow> nat list) \<Rightarrow> candidate frame \<Rightarrow> error + (int \<times> nat \<times> string option) frame"
where
  "ship_incident_counts nargsort unique_incidents =
     (if ''mmsi'' \<notin> set (columns unique_incidents) then Inl (KeyError [''mmsi''])
      else Inr (with_ship_names ''incident_count'' unique_incidents
             (ranked_incident_counts nargsort unique_incidents)))"

text \<open>\<open>unique_incidents.groupby('mmsi')['area_sq_km'].sum()\<close>, sorted, with names.\<close>

definition area_sums :: "candidate list \<Rightarrow> (int \<times> rat) list" where
  "area_sums cs =
     map (\<lambda>(m, g). (m, sum_list (map (\<lambda>c. area_sq_km (c_spill c)) g)))
       (groupby (\<lambda>c. mmsi (c_fix c)) cs)"

definition ranked_area_sums :: "(rat list \<Rightarrow> nat list) \<Rightarrow> candidate frame \<Rightarrow> (int \<times> rat) list" where
  "ranked_area_sums nargsort unique_incidents =
     sort_values_desc nargsort snd (area_sums (rows unique_incidents))"

definition ship_area_sum ::
  "(rat list \<Rightarrow> nat list) \<Rightarrow> candidate frame \<Rightarrow> error + (int \<times> rat \<times> string option) frame"
where
  "ship_area_sum nargsort unique_incidents =
     (if ''mmsi'' \<notin> set (columns unique_incidents) then Inl (KeyError [''mmsi''])
      else if ''area_sq_km'' \<notin> set (columns unique_incidents)
        then Inl (KeyError [''area_sq_km''])
      else Inr (with_ship_names ''total_area_sq_km'' unique_incidents
             (ranked_area_sums nargsort unique_incidents)))"

section \<open>Analytics by incident (tab 3)\<close>

text \<open>\<open>candidates_df.groupby('spill_id')['mmsi'].nunique()\<close>, sorted.\<close>

definition vessel_counts :: "candidate list \<Rightarrow> (string \<times> nat) list" where
  "vessel_counts cs =
     map (\<lambda>(k, g). (k, length (remdups (map (\<lambda>c. mmsi (c_fix c)) g))))
       (groupby (\<lambda>c. spill_id (c_spill c)) cs)"

definition spill_candidate_counts ::
  "(nat list \<Rightarrow> nat list) \<Rightarrow> candidate frame \<Rightarrow> error + (string \<times> nat) frame"
where
  "spill_candidate_counts nargsort candidates_df =
     (if ''spill_id'' \<notin> set (columns candidates_df) then Inl (KeyError [''spill_id''])
      else if ''mmsi'' \<notin> set (columns candidates_df) then Inl (KeyError [''mmsi''])
      else Inr \<lparr>columns = [''spill_id'', ''candidate_count''],
                rows = sort_values_desc nargsort snd (vessel_counts (rows candidates_df))\<rparr>)"

text \<open>
  Line 238 assigns a new column to \<open>candidates_df\<close> itself:
  \<open>candidates_df['time_to_detection'] = candidates_df['detection_date'] - candidates_df['timestamp']\<close>.
  The function returns the frame as the assignment leaves it. The subtraction of the
  two timestamp columns raises \<open>TypeError\<close> when one has a time zone and the other
  has none, and \<open>OverflowError\<close> when a difference does not fit 64 bits.
\<close>

definition assign_column :: "string \<Rightarrow> string list \<Rightarrow> string list" where
  "assign_column name cols = (if name \<in> set cols then cols else cols @ [name])"

definition assign_time_to_detection :: "candidate frame \<Rightarrow> error + candidate frame" where
  "assign_time_to_detection df =
     (if ''detection_date'' \<notin> set (columns df) then Inl (KeyError [''detection_date''])
      else if ''timestamp'' \<notin> set (columns df) then Inl (KeyError [''timestamp''])
      else if list_ex tz_mismatch (rows df) then Inl TypeError
      else if list_ex (\<lambda>c. \<not> datetime64_ok (detection_date (c_spill c) - timestamp (c_fix c)))
                (rows df)
        then Inl OverflowError
      else Inr \<lparr>columns = assign_column ''time_to_detection'' (columns df),
                rows = map (\<lambda>c. c\<lparr>time_to_detection :=
                         Some (detection_date (c_spill c) - timestamp (c_fix c))\<rparr>) (rows df)\<rparr>)"

text \<open>
  \<open>idxmin\<close> of one group: the index label of the first row that holds the least
  value; missing values are skipped, and a group without any value has none.
\<close>

fun idxmin_from :: "(nat \<times> int) option \<Rightarrow> (nat \<times> int option) list \<Rightarrow> nat option" where
  "idxmin_from best [] = map_option fst best"
| "idxmin_from best ((l, None) # xs) = idxmin_from best xs"
| "idxmin_from None ((l, Some v) # xs) = idxmin_from (Some (l, v)) xs"
| "idxmin_from (Some (bl, bv)) ((l, Some v) # xs) =
     idxmin_from (if v < bv then Some (l, v) else Some (bl, bv)) xs"

definition idxmin :: "(nat \<times> int option) list \<Rightarrow> nat option" where
  "idxmin xs = idxmin_from None xs"

text \<open>The labelled values that a group holds (missing values left out).\<close>

definition some_values :: "(nat \<times> int option) list \<Rightarrow> (nat \<times> int) set" where
  "some_values xs = {(l, v). (l, Some v) \<in> set xs}"

text \<open>\<open>candidates_df.groupby('spill_id')['time_to_detection'].idxmin()\<close>: per spill,
  the index label of a row. The labels are those of the fixes (\<open>sjoin\<close> keeps the
  left index).\<close>

definition prime_suspects_idx :: "candidate list \<Rightarrow> (string \<times> nat option) list" where
  "prime_suspects_idx cs =
     map (\<lambda>(k, g). (k, idxmin (map (\<lambda>c. (fix_index (c_fix c), time_to_detection c)) g)))
       (groupby (\<lambda>c. spill_id (c_spill c)) cs)"

text \<open>\<open>df.loc[labels]\<close>: for each label in turn, every row of the frame that carries
  the label; a missing label raises \<open>KeyError\<close>.\<close>

definition loc :: "nat option list \<Rightarrow> candidate list \<Rightarrow> error + candidate list" where
  "loc labels cs =
     (if None \<in> set labels then Inl (KeyError [''nan''])
      else Inr (concat (map (\<lambda>l. filter (\<lambda>c. Some (fix_index (c_fix c)) = l) cs) labels)))"

definition prime_suspects_df :: "candidate frame \<Rightarrow> error + candidate frame" where
  "prime_suspects_df candidates_df =
     (if ''spill_id'' \<notin> set (columns candidates_df) then Inl (KeyError [''spill_id''])
      else if ''time_to_detection'' \<notin> set (columns candidates_df)
        then Inl (KeyError [''time_to_detection''])
      else (case loc (map snd (prime_suspects_idx (rows candidates_df))) (rows candidates_df) of
              Inl e \<Rightarrow> Inl e
            | Inr selected \<Rightarrow> Inr (candidates_df\<lparr>rows := selected\<rparr>)))"

text \<open>
  The aggregation by vessel type runs only when \<open>unique_incidents\<close> has the column
  \<open>VesselType\<close> (\<open>None\<close> when it is skipped). \<open>groupby\<close> leaves out the rows whose
  key is missing.
\<close>

definition typed_rows :: "candidate list \<Rightarrow> (string \<times> candidate) list" where
  "typed_rows cs = List.map_filter (\<lambda>c. map_option (\<lambda>t. (t, c)) (vessel_type (c_fix c))) cs"

definition type_aggregates :: "candidate list \<Rightarrow> (string \<times> nat \<times> rat) list" where
  "type_aggregates cs =
     map (\<lambda>(t, g). (t, length g, sum_list (map (\<lambda>(t', c). area_sq_km (c_spill c)) g)))
       (groupby fst (typed_rows cs))"

definition vessel_type_analysis ::
  "(nat list \<Rightarrow> nat list) \<Rightarrow> candidate frame \<Rightarrow> (error + (string \<times> nat \<times> rat) frame) option"
where
  "vessel_type_analysis nargsort unique_incidents =
     (if ''VesselType'' \<in> set (columns unique_incidents) then
        Some (if ''spill_id'' \<notin> set (columns unique_incidents) then Inl (KeyError [''spill_id''])
              else if ''area_sq_km'' \<notin> set (columns unique_incidents)
                then Inl (KeyError [''area_sq_km''])
              else Inr \<lparr>columns = [''VesselType'', ''incident_count'', ''total_area_sq_km''],
                        rows = sort_values_desc nargsort (\<lambda>r. fst (snd r))
                                 (type_aggregates (rows unique_incidents))\<rparr>)
      else None)"

section \<open>The analytics block of the script\<close>

text \<open>
  The candidate frames are objects: a variable names an object, and assigning a
  column changes the object for every variable that names it. The objects that the
  block holds are the entries of a list, and a reference is a position in it.
  \<open>drop_duplicates\<close> and \<open>loc\<close> return a new object; the column assignment of
  line 238 writes into the object it is given; \<open>groupby\<close>, \<open>size\<close>, \<open>sum\<close>, \<open>nunique\<close>,
  \<open>idxmin\<close>, \<open>sort_values\<close> and \<open>merge\<close> read their frame and build tables.
\<close>

type_synonym ref = nat

definition new_frame :: "candidate frame \<Rightarrow> candidate frame list \<Rightarrow> ref \<times> candidate frame list" where
  "new_frame df objects = (length objects, objects @ [df])"

text \<open>Line 209, \<open>unique_incidents = candidates_df.drop_duplicates(...)\<close>.\<close>

definition call_drop_duplicates ::
  "ref \<Rightarrow> candidate frame list \<Rightarrow> error + ref \<times> candidate frame list"
where
  "call_drop_duplicates r objects =
     (case drop_duplicates (objects ! r) of
        Inl e \<Rightarrow> Inl e
      | Inr df \<Rightarrow> Inr (new_frame df objects))"

text \<open>Line 238, \<open>candidates_df['time_to_detection'] = ...\<close>.\<close>

definition setitem_time_to_detection ::
  "ref \<Rightarrow> candidate frame list \<Rightarrow> error + candidate frame list"
where
  "setitem_time_to_detection r objects =
     (case assign_time_to_detection (objects ! r) of
        Inl e \<Rightarrow> Inl e
      | Inr df \<Rightarrow> Inr (objects[r := df]))"

text \<open>Lines 239 and 240, \<open>prime_suspects_df = candidates_df.loc[prime_suspects_idx]\<close>.\<close>

definition call_loc_prime_suspects ::
  "ref \<Rightarrow> candidate frame list \<Rightarrow> error + ref \<times> candidate frame list"
where
  "call_loc_prime_suspects r objects =
     (case prime_suspects_df (objects ! r) of
        Inl e \<Rightarrow> Inl e
      | Inr df \<Rightarrow> Inr (new_frame df objects))"

text \<open>
  The variables of section 6 after it has run: the objects, the references that the
  three frame variables hold, and the tables. \<open>analytics_block\<close> starts from the
  objects that exist and the reference held by \<open>candidates_df\<close>; an exception ends the
  script.
\<close>

record block_state =
  objects :: "candidate frame list"
  var_candidates_df :: ref
  var_unique_incidents :: ref
  var_prime_suspects_df :: ref
  var_ship_incident_counts :: "(int \<times> nat \<times> string option) frame"
  var_ship_area_sum :: "(int \<times> rat \<times> string option) frame"
  var_spill_candidate_counts :: "(string \<times> nat) frame"
  var_vessel_type_analysis :: "(string \<times> nat \<times> rat) frame option"

definition analytics_block ::
  "(nat list \<Rightarrow> nat list) \<Rightarrow> (rat list \<Rightarrow> nat list) \<Rightarrow> candidate frame list \<Rightarrow> ref
     \<Rightarrow> error + block_state"
where
  "analytics_block sort_n sort_r objects0 candidates_df =
     (case call_drop_duplicates candidates_df objects0 of Inl e \<Rightarrow> Inl e
      | Inr (unique_incidents, objects1) \<Rightarrow>
     (case ship_incident_counts sort_n (objects1 ! unique_incidents) of Inl e \<Rightarrow> Inl e
      | Inr counts \<Rightarrow>
     (case ship_area_sum sort_r (objects1 ! unique_incidents) of Inl e \<Rightarrow> Inl e
      | Inr areas \<Rightarrow>
     (case spill_candidate_counts sort_n (objects1 ! candidates_df) of Inl e \<Rightarrow> Inl e
      | Inr spill_counts \<Rightarrow>
     (case setitem_time_to_detection candidates_df objects1 of Inl e \<Rightarrow> Inl e
      | Inr objects2 \<Rightarrow>
     (case call_loc_prime_suspects candidates_df objects2 of Inl e \<Rightarrow> Inl e
      | Inr (suspects, objects3) \<Rightarrow>
     (case vessel_type_analysis sort_n (objects3 ! unique_incidents) of
        Some (Inl e) \<Rightarrow> Inl e
      | Some (Inr by_type) \<Rightarrow>
          Inr \<lparr>objects = objects3, var_candidates_df = candidates_df,
               var_unique_incidents = unique_incidents, var_prime_suspects_df = suspects,
               var_ship_incident_counts = counts, var_ship_area_sum = areas,
               var_spill_candidate_counts = spill_counts,
               var_vessel_type_analysis = Some by_type\<rparr>
      | None \<Rightarrow>
          Inr \<lparr>objects = objects3, var_candidates_df = candidates_df,
               var_unique_incidents = unique_incidents, var_prime_suspects_df = suspects,
               var_ship_incident_counts = counts, var_ship_area_sum = areas,
               var_spill_candidate_counts = spill_counts,
               var_vessel_type_analysis = None\<rparr>)))))))"

text \<open>
  What the variables hold at the end, when the block starts from the frame that
  \<open>find_candidates\<close> returned as the only object.
\<close>

record script_state =
  st_candidates_df :: "candidate frame"
  st_unique_incidents :: "candidate frame"
  st_ship_incident_counts :: "(int \<times> nat \<times> string option) frame"
  st_ship_area_sum :: "(int \<times> rat \<times> string option) frame"
  st_spill_candidate_counts :: "(string \<times> nat) frame"
  st_prime_suspects_df :: "candidate frame"
  st_vessel_type_analysis :: "(string \<times> nat \<times> rat) frame option"

definition read_variables :: "block_state \<Rightarrow> script_state" where
  "read_variables b =
     \<lparr>st_candidates_df = objects b ! var_candidates_df b,
      st_unique_incidents = objects b ! var_unique_incidents b,
      st_ship_incident_counts = var_ship_incident_counts b,
      st_ship_area_sum = var_ship_area_sum b,
      st_spill_candidate_counts = var_spill_candidate_counts b,
      st_prime_suspects_df = objects b ! var_prime_suspects_df b,
      st_vessel_type_analysis = var_vessel_type_analysis b\<rparr>"

definition run_analytics ::
  "(nat list \<Rightarrow> nat list) \<Rightarrow> (rat list \<Rightarrow> nat list) \<Rightarrow> candidate frame \<Rightarrow> error + script_state"
where
  "run_analytics sort_n sort_r candidates_df =
     map_sum id read_variables (analytics_block sort_n sort_r [candidates_df] 0)"

section \<open>The loaders\<close>

text \<open>
  A loader reads a file, reports through \<open>st.info\<close>, \<open>st.success\<close>, \<open>st.warning\<close> and
  \<open>st.error\<close>, and returns a frame or \<open>None\<close>. The file's content is the argument
  (\<open>None\<close> when reading it raises); the messages are returned with the result, and a
  warning carries the count it displays. \<open>pd.to_datetime(..., errors='coerce')\<close> is a
  parameter: a parser that yields a timestamp with its time-zone flag, or \<open>None\<close>
  (\<open>NaT\<close>) for what it cannot read, once without and once with the format
  \<open>%Y-%m-%d_%H:%M:%S\<close>; \<open>coerce\<close> also turns a date outside the range of
  \<open>datetime64[ns]\<close> into \<open>NaT\<close>. Geometries are taken to be in WGS84 already, so
  the final \<open>to_crs\<close> changes nothing.
\<close>

datatype message = Info | Success | Warning nat | Error

text \<open>
  A cell of the columns \<open>date\<close> and \<open>time\<close> of the spill file: missing, a string, or
  a value that the reader has already typed as a date or a time (it does so for a
  field whose values all look like dates).
\<close>

datatype field_value = Missing | Text string | Typed

record raw_spill =
  slick_name :: string
  area_sys :: rat
  date_field :: field_value
  time_field :: field_value
  raw_polygon :: "point list"


definition rename_column :: "string \<Rightarrow> string" where
  "rename_column c =
     (if c = ''slick_name'' then ''spill_id''
      else if c = ''area_sys'' then ''area_sq_km'' else c)"

definition coerce :: "(string \<Rightarrow> (bool \<times> int) option) \<Rightarrow> string \<Rightarrow> (bool \<times> int) option" where
  "coerce to_datetime s =
     (case to_datetime s of
        None \<Rightarrow> None
      | Some (tz, t) \<Rightarrow> if datetime64_ok t then Some (tz, t) else None)"

text \<open>
  Line 74 is \<open>gdf['date'] + ' ' + gdf['time']\<close>, an addition of whole columns: it
  joins the strings of a row, keeps a missing value missing, and raises \<open>TypeError\<close>
  when a column holds typed dates or times, to which a string cannot be added. The
  exception is not caught.
\<close>

definition date_time_columns :: "string list \<Rightarrow> bool" where
  "date_time_columns cols = (''date'' \<in> set cols \<and> ''time'' \<in> set cols)"

definition typed_date_time :: "raw_spill frame \<Rightarrow> bool" where
  "typed_date_time gdf =
     (date_time_columns (columns gdf) \<and>
      list_ex (\<lambda>r. date_field r = Typed \<or> time_field r = Typed) (rows gdf))"

text \<open>Lines 72 to 77: the detection date of a row, from the columns \<open>date\<close> and
  \<open>time\<close> when the file has both, else from the identifier.\<close>

definition spill_detection_date ::
  "(string \<Rightarrow> (bool \<times> int) option) \<Rightarrow> (string \<Rightarrow> (bool \<times> int) option) \<Rightarrow> string list
     \<Rightarrow> raw_spill \<Rightarrow> (bool \<times> int) option"
where
  "spill_detection_date to_datetime to_datetime_fmt cols r =
     (if date_time_columns cols then
        (case date_field r of
           Text d \<Rightarrow>
             (case time_field r of
                Text t \<Rightarrow> coerce to_datetime (d @ '' '' @ t)
              | _ \<Rightarrow> None)
         | _ \<Rightarrow> None)
      else coerce to_datetime_fmt (slick_name r))"

text \<open>What \<open>dropna(subset=['detection_date'])\<close> keeps of a row: the row under its
  index label, when it has a date.\<close>

definition spill_row ::
  "(string \<Rightarrow> (bool \<times> int) option) \<Rightarrow> (string \<Rightarrow> (bool \<times> int) option) \<Rightarrow> string list
     \<Rightarrow> nat \<times> raw_spill \<Rightarrow> spill_record option"
where
  "spill_row to_datetime to_datetime_fmt cols ir =
     (case ir of (i, r) \<Rightarrow>
        map_option
          (\<lambda>(tz, t). \<lparr>spill_index = i, spill_id = slick_name r, polygon = raw_polygon r,
                 detection_date = t, detection_tz = tz, area_sq_km = area_sys r\<rparr>)
          (spill_detection_date to_datetime to_datetime_fmt cols r))"

text \<open>
  \<open>load_spills_data\<close>. The result is \<open>Inl\<close> an exception that leaves the function,
  \<open>Inr None\<close> for \<open>return None\<close>, \<open>Inr (Some gdf)\<close> for a frame.
\<close>

definition load_spills_data ::
  "(string \<Rightarrow> (bool \<times> int) option) \<Rightarrow> (string \<Rightarrow> (bool \<times> int) option) \<Rightarrow> raw_spill frame option
     \<Rightarrow> message list \<times> (error + spill_record frame option)"
where
  "load_spills_data to_datetime to_datetime_fmt file =
     (case file of
        None \<Rightarrow> ([Info, Error], Inr None)
      | Some gdf \<Rightarrow>
          if missing_columns [''slick_name'', ''area_sys''] gdf \<noteq> []
          then ([Info, Error], Inr None)
          else if typed_date_time gdf then ([Info, Success], Inl TypeError)
          else
            (let failed_count = length (filter
                     (\<lambda>r. spill_detection_date to_datetime to_datetime_fmt (columns gdf) r = None)
                     (rows gdf));
                 warning = (if failed_count > 0 then [Warning failed_count] else []);
                 kept = List.map_filter
                     (spill_row to_datetime to_datetime_fmt (columns gdf))
                     (enumerate 0 (rows gdf))
             in if kept = [] then ([Info, Success] @ warning @ [Error], Inr None)
                else ([Info, Success] @ warning @ [Success],
                      Inr (Some \<lparr>columns = assign_column ''detection_date''
                                        (map rename_column (columns gdf)),
                            rows = kept\<rparr>))))"




section \<open>Example data\<close>

text \<open>The unit square centred at the origin, detected at noon, and a larger square
  around it; times are counted from the midnight that starts 1 January 1970.\<close>

definition unit_square :: "point list" where
  "unit_square = [(- 1 / 2, - 1 / 2), (1 / 2, - 1 / 2), (1 / 2, 1 / 2), (- 1 / 2, 1 / 2)]"

definition spill_S1 :: spill_record where
  "spill_S1 = \<lparr>spill_index = 0, spill_id = ''S1'', polygon = unit_square,
                detection_date = 12 * hour, detection_tz = False, area_sq_km = 3\<rparr>"

definition fix_at :: "nat \<Rightarrow> int \<Rightarrow> point \<Rightarrow> int \<Rightarrow> vessel_fix" where
  "fix_at i m p t = \<lparr>fix_index = i, mmsi = m, geometry = p, timestamp = t,
                     timestamp_tz = False,
                     vessel_name = None, vessel_type = None\<rparr>"

definition spill_columns :: "string list" where
  "spill_columns = [''spill_id'', ''area_sq_km'', ''geometry'', ''detection_date'']"

definition ais_columns :: "string list" where
  "ais_columns = [''mmsi'', ''latitude'', ''longitude'', ''BaseDateTime'', ''timestamp'',
                  ''geometry'']"

definition spills_of :: "spill_record list \<Rightarrow> spill_record frame option" where
  "spills_of ss = Some \<lparr>columns = spill_columns, rows = ss\<rparr>"

definition vessels_of :: "vessel_fix list \<Rightarrow> vessel_fix frame option" where
  "vessels_of vs = Some \<lparr>columns = ais_columns, rows = vs\<rparr>"

definition big_square :: "point list" where
  "big_square = [(- 1, - 1), (1, - 1), (1, 1), (- 1, 1)]"

definition spill_S2 :: spill_record where
  "spill_S2 = \<lparr>spill_index = 1, spill_id = ''S2'', polygon = big_square,
                detection_date = 12 * hour, detection_tz = False, area_sq_km = 5\<rparr>"

definition candidate_columns :: "string list" where
  "candidate_columns = ais_columns @ [''index_right'', ''spill_id'', ''area_sq_km'', ''detection_date'']"


definition two_fixes_one_vessel :: "candidate frame" where
  "two_fixes_one_vessel = \<lparr>columns = candidate_columns,
     rows = [join_row (fix_at 0 123 (0, 0) (6 * hour)) spill_S1,
             join_row (fix_at 1 123 (0, 0) (10 * hour)) spill_S1,
             join_row (fix_at 2 456 (0, 0) (8 * hour)) spill_S1]\<rparr>"

text \<open>Vessel 456 inside both spills, twice inside the first and twice inside the
  second, and vessel 123 inside the second.\<close>

definition one_vessel_two_spills :: "candidate frame" where
  "one_vessel_two_spills = \<lparr>columns = candidate_columns,
     rows = [join_row (fix_at 0 456 (0, 0) (6 * hour)) spill_S1,
             join_row (fix_at 0 456 (0, 0) (6 * hour)) spill_S2,
             join_row (fix_at 1 456 (0, 0) (8 * hour)) spill_S1,
             join_row (fix_at 2 123 (3 / 4, 3 / 4) (9 * hour)) spill_S2,
             join_row (fix_at 1 456 (0, 0) (8 * hour)) spill_S2]\<rparr>"

definition three_incidents :: "candidate frame" where
  "three_incidents = \<lparr>columns = candidate_columns,
     rows = [join_row (fix_at 0 123 (0, 0) (6 * hour)) spill_S1,
             join_row (fix_at 1 456 (0, 0) (8 * hour)) spill_S1,
             join_row (fix_at 1 456 (0, 0) (8 * hour)) spill_S2]\<rparr>"

definition tied_incidents :: "candidate frame" where
  "tied_incidents = \<lparr>columns = candidate_columns,
     rows = [join_row (fix_at 0 123 (0, 0) (6 * hour)) spill_S1,
             join_row (fix_at 1 456 (0, 0) (8 * hour)) spill_S1]\<rparr>"


text \<open>A fix inside both squares and a later fix inside the larger one only; a fix
  outside every polygon.\<close>

definition overlapping_fixes :: "vessel_fix list" where
  "overlapping_fixes = [fix_at 0 123 (0, 0) (6 * hour), fix_at 1 456 (3 / 4, 3 / 4) (11 * hour)]"

definition overlapping_candidates :: "candidate frame" where
  "overlapping_candidates = \<lparr>columns = candidate_columns,
     rows = [join_row (fix_at 0 123 (0, 0) (6 * hour)) spill_S1,
             join_row (fix_at 0 123 (0, 0) (6 * hour)) spill_S2,
             join_row (fix_at 1 456 (3 / 4, 3 / 4) (11 * hour)) spill_S2]\<rparr>"

definition outside_fixes :: "vessel_fix list" where
  "outside_fixes = [fix_at 0 123 (10, 10) (6 * hour)]"

text \<open>The columns of a candidate row that the prime-suspect table displays.\<close>

definition incident_summary :: "candidate \<Rightarrow> string \<times> int \<times> int option" where
  "incident_summary c = (spill_id (c_spill c), mmsi (c_fix c), time_to_detection c)"






text \<open>The tables expected for these frames.\<close>

definition three_incidents_counts :: "(int \<times> nat \<times> string option) frame" where
  "three_incidents_counts =
     \<lparr>columns = [''mmsi'', ''incident_count''], rows = [(456, 2, None), (123, 1, None)]\<rparr>"

definition three_incidents_areas :: "(int \<times> rat \<times> string option) frame" where
  "three_incidents_areas =
     \<lparr>columns = [''mmsi'', ''total_area_sq_km''], rows = [(456, 8, None), (123, 3, None)]\<rparr>"

definition three_incidents_spills :: "(string \<times> nat) frame" where
  "three_incidents_spills =
     \<lparr>columns = [''spill_id'', ''candidate_count''], rows = [(''S1'', 2), (''S2'', 1)]\<rparr>"


section \<open>Properties of the matcher\<close>

lemma rows_GeoDataFrame: "rows GeoDataFrame = []"
  by (simp add: GeoDataFrame_def)

lemma set_rows_sjoin:
  "set (rows (sjoin P vs ss)) =
     {join_row f s | f s. f \<in> set (rows vs) \<and> s \<in> set (rows ss) \<and> P (geometry f) (polygon s)}"
  by (auto simp: sjoin_def)

lemma columns_sjoin_nonempty: "columns (sjoin P vs ss) \<noteq> []"
  by (simp add: sjoin_def)


lemma timedelta_hours_Inr: "timedelta_hours w = Inr td \<Longrightarrow> td = w * hour"
  by (simp add: timedelta_hours_def split: if_splits)

lemma to_timedelta64_Inr: "to_timedelta64 td = Inr td' \<Longrightarrow> td' = td \<and> datetime64_ok td"
  by (simp add: to_timedelta64_def split: if_splits)


text \<open>What the function returns, when it returns.\<close>

lemma find_candidates_Inr:
  assumes "find_candidates (Some ss) (Some vs) w = Inr df"
  shows "set (rows df) = {c \<in> set (rows (sjoin within_predicate vs ss)). in_window (w * hour) c}"
proof (cases "rows (sjoin within_predicate vs ss) = []")
  case True
  with assms show ?thesis
    by (auto simp: find_candidates_def Let_def df_empty_def rows_GeoDataFrame)
next
  case False
  with assms obtain td td' where "timedelta_hours w = Inr td" and "to_timedelta64 td = Inr td'"
    and df: "df = (sjoin within_predicate vs ss)\<lparr>rows :=
        filter (in_window td') (rows (sjoin within_predicate vs ss))\<rparr>"
    by (auto simp: find_candidates_def Let_def df_empty_def columns_sjoin_nonempty
        split: sum.splits if_splits)
  then have "td' = w * hour"
    using timedelta_hours_Inr to_timedelta64_Inr by blast
  with df show ?thesis by auto
qed


lemma find_candidates_not_loaded:
  "find_candidates None vessels_gdf w = Inr GeoDataFrame"
  "find_candidates spills_gdf None w = Inr GeoDataFrame"
  by (simp_all add: find_candidates_def split: option.splits)

subsection \<open>Locating points against the unit square\<close>

lemma unit_square_edges:
  "ring_edges unit_square =
     [((- 1 / 2, - 1 / 2), (1 / 2, - 1 / 2)), ((1 / 2, - 1 / 2), (1 / 2, 1 / 2)),
      ((1 / 2, 1 / 2), (- 1 / 2, 1 / 2)), ((- 1 / 2, 1 / 2), (- 1 / 2, - 1 / 2))]"
  by (simp add: ring_edges_def unit_square_def)

lemma locate_centre: "locate (0, 0) unit_square = Interior"
  by (simp add: locate_def unit_square_edges on_segment_def crosses_ray_def cross_def)


lemma locate_far_point: "locate (10, 10) unit_square = Exterior"
  by (simp add: locate_def unit_square_edges on_segment_def crosses_ray_def cross_def)

subsection \<open>Candidates are the pairs inside the polygon and inside the window\<close>





subsection \<open>Monotonicity in the window\<close>

lemma in_window_mono: "w1 \<le> w2 \<Longrightarrow> in_window (w1 * hour) c \<Longrightarrow> in_window (w2 * hour) c"
proof -
  assume "w1 \<le> w2"
  then have "w1 * hour \<le> w2 * hour"
    by (simp add: hour_def)
  then show "in_window (w1 * hour) c \<Longrightarrow> in_window (w2 * hour) c"
    by (simp add: in_window_def)
qed

lemma find_candidates_returns_below:
  assumes w: "0 \<le> w1" "w1 \<le> w2"
    and r: "find_candidates (Some ss) (Some vs) w2 = Inr df2"
    and ok: "\<forall>S \<in> set (rows ss). datetime64_ok (detection_date S)"
  shows "\<exists>df1. find_candidates (Some ss) (Some vs) w1 = Inr df1"
proof (cases "rows (sjoin within_predicate vs ss) = []")
  case True
  then show ?thesis
    by (simp add: find_candidates_def Let_def df_empty_def)
next
  case False
  let ?cs = "rows (sjoin within_predicate vs ss)"
  from r False obtain td where td: "timedelta_hours w2 = Inr td"
    and tz: "\<not> list_ex tz_mismatch ?cs"
    and t64: "to_timedelta64 td = Inr td"
    and ov: "\<not> list_ex (window_overflow td) ?cs"
    by (auto simp: find_candidates_def Let_def df_empty_def columns_sjoin_nonempty
        to_timedelta64_def split: sum.splits if_splits)
  from td have td_eq: "td = w2 * hour" and w2: "w2 \<le> 23999999999"
    by (auto simp: timedelta_hours_def split: if_splits)
  from w have le: "0 \<le> w1 * hour" "w1 * hour \<le> w2 * hour"
    by (simp_all add: hour_def)
  have 1: "timedelta_hours w1 = Inr (w1 * hour)"
    using w w2 by (simp add: timedelta_hours_def)
  from t64 have "datetime64_ok (w2 * hour)"
    by (simp add: to_timedelta64_def td_eq split: if_splits)
  with le have 2: "to_timedelta64 (w1 * hour) = Inr (w1 * hour)"
    by (simp add: to_timedelta64_def datetime64_ok_def)
  have "\<not> window_overflow (w1 * hour) c" if c: "c \<in> set ?cs" for c
  proof -
    from c ov have "datetime64_ok (detection_date (c_spill c) - w2 * hour)"
      by (auto simp: list_ex_iff window_overflow_def td_eq)
    moreover from c ok have "datetime64_ok (detection_date (c_spill c))"
      by (auto simp: set_rows_sjoin join_row_def)
    ultimately show ?thesis
      using le by (simp add: window_overflow_def datetime64_ok_def)
  qed
  then have 3: "\<not> list_ex (window_overflow (w1 * hour)) ?cs"
    by (auto simp: list_ex_iff)
  show ?thesis
    using 1 2 3 tz by (simp add: find_candidates_def Let_def)
qed

text \<open>
  C4 (as amended). For fixed inputs (loaded or not) and windows \<open>w1 \<le> w2\<close> at both
  of which \<open>find_candidates\<close> returns a frame, every candidate emitted at window \<open>w1\<close>
  is emitted at window \<open>w2\<close>. When it returns a frame at \<open>w2\<close>, it returns one at
  every window \<open>0 \<le> w1 \<le> w2\<close>, provided the detection dates are in the range of
  timestamps.
\<close>

theorem find_candidates_mono:
  "(w1 \<le> w2 \<and> find_candidates spills_gdf vessels_gdf w1 = Inr df1 \<and>
    find_candidates spills_gdf vessels_gdf w2 = Inr df2 \<longrightarrow>
      set (rows df1) \<subseteq> set (rows df2)) \<and>
   (0 \<le> w1 \<and> w1 \<le> w2 \<and> find_candidates spills_gdf vessels_gdf w2 = Inr df2 \<and>
    (\<forall>spills. spills_gdf = Some spills \<longrightarrow>
       (\<forall>S \<in> set (rows spills). datetime64_ok (detection_date S))) \<longrightarrow>
      (\<exists>df. find_candidates spills_gdf vessels_gdf w1 = Inr df))"
proof (cases "spills_gdf = None \<or> vessels_gdf = None")
  case True
  then show ?thesis
    by (auto simp: find_candidates_not_loaded)
next
  case False
  then obtain ss vs where l: "spills_gdf = Some ss" "vessels_gdf = Some vs"
    by auto
  have "set (rows df1) \<subseteq> set (rows df2)"
    if "w1 \<le> w2" "find_candidates (Some ss) (Some vs) w1 = Inr df1"
      "find_candidates (Some ss) (Some vs) w2 = Inr df2"
    using that in_window_mono [of w1 w2] by (auto simp: find_candidates_Inr)
  moreover have "\<exists>df. find_candidates (Some ss) (Some vs) w1 = Inr df"
    if "0 \<le> w1" "w1 \<le> w2" "find_candidates (Some ss) (Some vs) w2 = Inr df2"
      "\<forall>S \<in> set (rows ss). datetime64_ok (detection_date S)"
    using that by (rule find_candidates_returns_below)
  ultimately show ?thesis
    unfolding l by blast
qed

text \<open>The fix two hours before the detection: no candidate at one hour, a candidate
  at three hours.\<close>

theorem find_candidates_mono_witness:
  "(0::int) \<le> 1 \<and> (1::int) \<le> 3 \<and> datetime64_ok (detection_date spill_S1) \<and>
   find_candidates (spills_of [spill_S1]) (vessels_of [fix_at 0 123 (0, 0) (10 * hour)]) 1
     = Inr \<lparr>columns = candidate_columns, rows = []\<rparr> \<and>
   find_candidates (spills_of [spill_S1]) (vessels_of [fix_at 0 123 (0, 0) (10 * hour)]) 3
     = Inr \<lparr>columns = candidate_columns,
            rows = [join_row (fix_at 0 123 (0, 0) (10 * hour)) spill_S1]\<rparr> \<and>
   set (rows \<lparr>columns = candidate_columns, rows = [] :: candidate list\<rparr>)
     \<subseteq> set (rows \<lparr>columns = candidate_columns,
            rows = [join_row (fix_at 0 123 (0, 0) (10 * hour)) spill_S1]\<rparr>)"
proof -
  have "find_candidates (spills_of [spill_S1]) (vessels_of [fix_at 0 123 (0, 0) (10 * hour)]) 1
     = Inr \<lparr>columns = candidate_columns, rows = []\<rparr>"
    by code_simp
  moreover have "find_candidates (spills_of [spill_S1]) (vessels_of [fix_at 0 123 (0, 0) (10 * hour)]) 3
     = Inr \<lparr>columns = candidate_columns,
            rows = [join_row (fix_at 0 123 (0, 0) (10 * hour)) spill_S1]\<rparr>"
    by code_simp
  ultimately show ?thesis
    using find_candidates_mono [of 1 3 "spills_of [spill_S1]"
      "vessels_of [fix_at 0 123 (0, 0) (10 * hour)]"
      "\<lparr>columns = candidate_columns, rows = []\<rparr>"
      "\<lparr>columns = candidate_columns,
            rows = [join_row (fix_at 0 123 (0, 0) (10 * hour)) spill_S1]\<rparr>"]
    by (simp add: spills_of_def spill_S1_def datetime64_ok_def hour_def)
qed

text \<open>
  C4 (as stated) fails for a window beyond what \<open>timedelta\<close> holds: with the fix at the
  centre two hours before the detection, the window of three hours emits the candidate
  and the larger window of \<open>10 ^ 12\<close> hours raises and emits nothing.
\<close>

theorem find_candidates_mono_counterexample:
  "(3::int) \<le> 10 ^ 12 \<and>
   find_candidates (spills_of [spill_S1]) (vessels_of [fix_at 0 123 (0, 0) (10 * hour)]) 3
     = Inr \<lparr>columns = candidate_columns,
            rows = [join_row (fix_at 0 123 (0, 0) (10 * hour)) spill_S1]\<rparr> \<and>
   find_candidates (spills_of [spill_S1]) (vessels_of [fix_at 0 123 (0, 0) (10 * hour)])
     (10 ^ 12) = Inl OverflowError"
proof -
  have "find_candidates (spills_of [spill_S1]) (vessels_of [fix_at 0 123 (0, 0) (10 * hour)]) 3
     = Inr \<lparr>columns = candidate_columns,
            rows = [join_row (fix_at 0 123 (0, 0) (10 * hour)) spill_S1]\<rparr>"
    by code_simp
  moreover have "find_candidates (spills_of [spill_S1])
     (vessels_of [fix_at 0 123 (0, 0) (10 * hour)]) (10 ^ 12) = Inl OverflowError"
    by (simp add: find_candidates_def spills_of_def vessels_of_def sjoin_def df_empty_def
      within_predicate_def locate_centre spill_S1_def fix_at_def timedelta_hours_def)
  ultimately show ?thesis
    by simp
qed

section \<open>Properties of the deduplication\<close>

lemma drop_seen_keys:
  "set (map key (drop_seen key seen xs)) = set (map key xs) - set seen"
  by (induction xs arbitrary: seen) auto

lemma drop_seen_distinct: "distinct (map key (drop_seen key seen xs))"
  by (induction xs arbitrary: seen) (auto simp: drop_seen_keys [simplified])

lemma drop_seen_first:
  "c \<in> set (drop_seen key seen xs) \<Longrightarrow> find (\<lambda>d. key d = key c) xs = Some c"
proof (induction xs arbitrary: seen)
  case Nil
  then show ?case by simp
next
  case (Cons x xs)
  show ?case
  proof (cases "key x \<in> set seen")
    case True
    with Cons.prems have c: "c \<in> set (drop_seen key seen xs)" by simp
    then have "key c \<in> set (map key (drop_seen key seen xs))" by simp
    then have "key c \<notin> set seen" by (simp only: drop_seen_keys) simp
    with True have "key x \<noteq> key c" by auto
    with Cons.IH [OF c] show ?thesis by simp
  next
    case False
    with Cons.prems have "c = x \<or> c \<in> set (drop_seen key (key x # seen) xs)" by simp
    then show ?thesis
    proof
      assume "c = x"
      then show ?thesis by simp
    next
      assume c: "c \<in> set (drop_seen key (key x # seen) xs)"
      then have "key c \<in> set (map key (drop_seen key (key x # seen) xs))" by simp
      then have "key c \<notin> set (key x # seen)" by (simp only: drop_seen_keys) simp
      then have "key x \<noteq> key c" by auto
      with Cons.IH [OF c] show ?thesis by simp
    qed
  qed
qed

lemma drop_seen_subseq: "subseq (drop_seen key seen xs) xs"
  by (induction xs arbitrary: seen) auto

lemma distinct_key_once:
  "distinct (map key ys) \<Longrightarrow> k \<in> set (map key ys) \<Longrightarrow>
     length (filter (\<lambda>c. key c = k) ys) = 1"
proof (induction ys)
  case Nil
  then show ?case by simp
next
  case (Cons y ys)
  show ?case
  proof (cases "key y = k")
    case True
    with Cons.prems have "\<forall>c \<in> set ys. key c \<noteq> k" by (auto simp: image_iff)
    then have "filter (\<lambda>c. key c = k) ys = []" by (simp add: filter_empty_conv)
    with True show ?thesis by simp
  next
    case False
    with Cons show ?thesis by auto
  qed
qed

lemma drop_duplicates_by_once:
  assumes "k \<in> set (map key xs)"
  shows "length (filter (\<lambda>c. key c = k) (drop_duplicates_by key xs)) = 1"
proof -
  let ?ys = "drop_duplicates_by key xs"
  have d: "distinct (map key ?ys)"
    by (simp add: drop_duplicates_by_def drop_seen_distinct)
  have "set (map key ?ys) = set (map key xs)"
    by (simp only: drop_duplicates_by_def drop_seen_keys) simp
  with assms have k: "k \<in> set (map key ?ys)" by simp
  from d k show ?thesis by (rule distinct_key_once)
qed

text \<open>
  C3. For a candidate frame that has the columns \<open>spill_id\<close> and \<open>mmsi\<close>,
  \<open>drop_duplicates\<close> on that pair returns a frame with the same columns in which no
  two rows have the same \<open>spill_id\<close> and the same \<open>mmsi\<close>; every pair
  \<open>(spill_id, mmsi)\<close> of an input row is the pair of exactly one row of the result;
  every row of the result is the first row of the input with its \<open>spill_id\<close> and its
  \<open>mmsi\<close>; and the result keeps the input's order.
\<close>

theorem drop_duplicates_first_per_key:
  assumes "''spill_id'' \<in> set (columns df)" and "''mmsi'' \<in> set (columns df)"
  shows "(\<exists>out. drop_duplicates df = Inr out) \<and>
    (drop_duplicates df = Inr out \<longrightarrow>
       columns out = columns df \<and>
       distinct (map (\<lambda>c. (spill_id (c_spill c), mmsi (c_fix c))) (rows out)) \<and>
       (\<forall>c \<in> set (rows df).
          length (filter (\<lambda>d. spill_id (c_spill d) = spill_id (c_spill c) \<and>
                              mmsi (c_fix d) = mmsi (c_fix c)) (rows out)) = 1) \<and>
       (\<forall>c \<in> set (rows out).
          find (\<lambda>d. spill_id (c_spill d) = spill_id (c_spill c) \<and>
                     mmsi (c_fix d) = mmsi (c_fix c)) (rows df) = Some c) \<and>
       subseq (rows out) (rows df))"
proof -
  let ?key = "\<lambda>c. (spill_id (c_spill c), mmsi (c_fix c))"
  have key: "incident_key = ?key"
    by (rule ext) (simp add: incident_key_def)
  have same: "(\<lambda>d. spill_id (c_spill d) = spill_id (c_spill c) \<and> mmsi (c_fix d) = mmsi (c_fix c))
      = (\<lambda>d. ?key d = ?key c)" for c
    by (rule ext) simp
  have r: "drop_duplicates df = Inr (df\<lparr>rows := drop_duplicates_by ?key (rows df)\<rparr>)"
    using assms
    by (cases "rows df") (auto simp: drop_duplicates_def df_empty_def missing_columns_def
        drop_duplicates_by_def key)
  have "length (filter (\<lambda>d. ?key d = ?key c) (drop_duplicates_by ?key (rows df))) = 1"
    if "c \<in> set (rows df)" for c
    using that by (intro drop_duplicates_by_once) simp
  moreover have "find (\<lambda>d. ?key d = ?key c) (rows df) = Some c"
    if "c \<in> set (drop_duplicates_by ?key (rows df))" for c
    using that unfolding drop_duplicates_by_def by (rule drop_seen_first)
  moreover have "distinct (map ?key (drop_duplicates_by ?key (rows df)))"
    by (simp only: drop_duplicates_by_def drop_seen_distinct)
  moreover have "subseq (drop_duplicates_by ?key (rows df)) (rows df)"
    by (simp add: drop_duplicates_by_def drop_seen_subseq)
  ultimately show ?thesis
    unfolding r same by auto
qed

text \<open>Vessel 456 has two fixes inside each of two spills and vessel 123 one fix inside
  the second: the first row of each of the three pairs is kept, so vessel 456 is
  kept once under \<open>S1\<close> and once under \<open>S2\<close>.\<close>

theorem drop_duplicates_first_per_key_witness:
  "''spill_id'' \<in> set (columns one_vessel_two_spills) \<and>
   ''mmsi'' \<in> set (columns one_vessel_two_spills) \<and>
   drop_duplicates one_vessel_two_spills = Inr \<lparr>columns = candidate_columns, rows =
     [join_row (fix_at 0 456 (0, 0) (6 * hour)) spill_S1,
      join_row (fix_at 0 456 (0, 0) (6 * hour)) spill_S2,
      join_row (fix_at 2 123 (3 / 4, 3 / 4) (9 * hour)) spill_S2]\<rparr> \<and>
   map (\<lambda>c. (spill_id (c_spill c), mmsi (c_fix c)))
     [join_row (fix_at 0 456 (0, 0) (6 * hour)) spill_S1,
      join_row (fix_at 0 456 (0, 0) (6 * hour)) spill_S2,
      join_row (fix_at 2 123 (3 / 4, 3 / 4) (9 * hour)) spill_S2]
     = [(''S1'', 456), (''S2'', 456), (''S2'', 123)] \<and>
   distinct (map (\<lambda>c. (spill_id (c_spill c), mmsi (c_fix c)))
     (rows \<lparr>columns = candidate_columns, rows =
     [join_row (fix_at 0 456 (0, 0) (6 * hour)) spill_S1,
      join_row (fix_at 0 456 (0, 0) (6 * hour)) spill_S2,
      join_row (fix_at 2 123 (3 / 4, 3 / 4) (9 * hour)) spill_S2]\<rparr>))"
proof -
  have c: "''spill_id'' \<in> set (columns one_vessel_two_spills)"
    "''mmsi'' \<in> set (columns one_vessel_two_spills)"
    by code_simp+
  have r: "drop_duplicates one_vessel_two_spills = Inr \<lparr>columns = candidate_columns, rows =
     [join_row (fix_at 0 456 (0, 0) (6 * hour)) spill_S1,
      join_row (fix_at 0 456 (0, 0) (6 * hour)) spill_S2,
      join_row (fix_at 2 123 (3 / 4, 3 / 4) (9 * hour)) spill_S2]\<rparr>"
    by code_simp
  have k: "map (\<lambda>c. (spill_id (c_spill c), mmsi (c_fix c)))
     [join_row (fix_at 0 456 (0, 0) (6 * hour)) spill_S1,
      join_row (fix_at 0 456 (0, 0) (6 * hour)) spill_S2,
      join_row (fix_at 2 123 (3 / 4, 3 / 4) (9 * hour)) spill_S2]
     = [(''S1'', 456), (''S2'', 456), (''S2'', 123)]"
    by (simp add: join_row_def spill_S1_def spill_S2_def fix_at_def)
  from drop_duplicates_first_per_key [OF c, of "\<lparr>columns = candidate_columns, rows =
     [join_row (fix_at 0 456 (0, 0) (6 * hour)) spill_S1,
      join_row (fix_at 0 456 (0, 0) (6 * hour)) spill_S2,
      join_row (fix_at 2 123 (3 / 4, 3 / 4) (9 * hour)) spill_S2]\<rparr>"] c r k
  show ?thesis by simp
qed

section \<open>Properties of sorting and of the name join\<close>

lemma nargsort_ok_indices:
  assumes "nargsort_ok f" and "i \<in> set (f items)"
  shows "i < length items"
  using assms unfolding nargsort_ok_def by (metis atLeastLessThan_iff)

lemma sort_values_desc_sorted:
  assumes "nargsort_ok f"
  shows "sorted_wrt (\<ge>) (map by (sort_values_desc f by xs))"
proof -
  let ?items = "map by xs"
  have "map by (sort_values_desc f by xs) = map (\<lambda>i. ?items ! i) (f ?items)"
    using nargsort_ok_indices [OF assms, of _ ?items]
    by (simp add: sort_values_desc_def)
  moreover have "sorted_wrt (\<ge>) (map (\<lambda>i. ?items ! i) (f ?items))"
    using assms unfolding nargsort_ok_def by blast
  ultimately show ?thesis by simp
qed

lemma sort_values_desc_mset:
  assumes "nargsort_ok f"
  shows "mset (sort_values_desc f by xs) = mset xs"
proof -
  let ?p = "f (map by xs)"
  have "distinct ?p" and "set ?p = {0..<length xs}"
    using assms unfolding nargsort_ok_def by (metis length_map)+
  then have "mset ?p = mset [0..<length xs]"
    by (metis distinct_upt set_eq_iff_mset_eq_distinct set_upt)
  then have "mset (map (\<lambda>i. xs ! i) ?p) = mset (map (\<lambda>i. xs ! i) [0..<length xs])"
    by (metis mset_map)
  then show ?thesis
    by (simp add: sort_values_desc_def map_nth)
qed

lemma rev_sort_key_desc: "sorted_wrt (\<ge>) (map k (rev (sort_key k ys)))"
proof -
  have "sorted (map k (sort_key k ys))" by (rule sorted_sort_key)
  then have "sorted_wrt (\<ge>) (rev (map k (sort_key k ys)))"
    by (simp only: sorted_wrt_rev)
  then show ?thesis by (simp only: rev_map)
qed

lemma nargsort_stable_ok: "nargsort_ok nargsort_stable"
  unfolding nargsort_ok_def nargsort_stable_def
  by (auto simp: rev_sort_key_desc)

lemma nargsort_reversing_ok: "nargsort_ok nargsort_reversing"
  unfolding nargsort_ok_def nargsort_reversing_def
  by (auto simp: rev_sort_key_desc)

lemma joined_rows_fields:
  "r \<in> set (joined_rows right (m, v)) \<Longrightarrow> fst r = m \<and> fst (snd r) = v"
  by (auto simp: joined_rows_def split: list.splits)

lemma joined_rows_nonempty: "joined_rows right l \<noteq> []"
  by (cases l) (auto simp: joined_rows_def split: list.splits)

lemma not_key_filter_empty:
  "m \<notin> fst ` set right \<longleftrightarrow> filter (\<lambda>(m', n). m' = m) right = []"
  by (force simp: filter_empty_conv)

lemma joined_rows_unmatched:
  "m \<notin> fst ` set right \<Longrightarrow> joined_rows right (m, v) = [(m, v, None)]"
  by (simp add: joined_rows_def not_key_filter_empty)

lemma joined_rows_name:
  assumes "(m, v, n) \<in> set (joined_rows right (m, v))"
  shows "(m, n) \<in> set right \<or> n = None"
proof (cases "filter (\<lambda>(m', n). m' = m) right")
  case Nil
  with assms show ?thesis by (simp add: joined_rows_def)
next
  case (Cons p ps)
  with assms have "(m, v, n) \<in> (\<lambda>(m', n). (m, v, n)) ` set (filter (\<lambda>(m', n). m' = m) right)"
    by (simp add: joined_rows_def)
  then obtain q where q: "q \<in> set (filter (\<lambda>(m', n). m' = m) right)"
    and eq: "(m, v, n) = (\<lambda>(m', n). (m, v, n)) q"
    by (rule imageE)
  obtain m' n' where "q = (m', n')" by (cases q)
  with q eq have "(m, n) \<in> set right" by auto
  then show ?thesis ..
qed


lemma merge_left_Cons:
  "merge_left (l # left) right = joined_rows right l @ merge_left left right"
  by (simp add: merge_left_def)

lemma merge_left_Nil: "merge_left [] right = []"
  by (simp add: merge_left_def)

lemma fst_set_merge_left: "fst ` set (merge_left left right) = fst ` set left"
proof (induction left)
  case Nil
  show ?case by (simp add: merge_left_Nil)
next
  case (Cons l left)
  obtain m v where l: "l = (m, v)" by (cases l)
  have "fst ` set (joined_rows right (m, v)) = {m}"
    using joined_rows_fields [of _ right m v] joined_rows_nonempty [of right "(m, v)"]
    by (cases "joined_rows right (m, v)") auto
  with Cons l show ?case
    by (simp add: merge_left_Cons image_Un)
qed

lemma values_merge_left:
  "(\<lambda>r. fst (snd r)) ` set (merge_left left right) \<subseteq> snd ` set left"
proof (induction left)
  case Nil
  show ?case by (simp add: merge_left_Nil)
next
  case (Cons l left)
  obtain m v where l: "l = (m, v)" by (cases l)
  have "(\<lambda>r. fst (snd r)) ` set (joined_rows right (m, v)) \<subseteq> {v}"
    using joined_rows_fields [of _ right m v] by auto
  with Cons l show ?case
    by (auto simp: merge_left_Cons image_Un)
qed

lemma sorted_wrt_const: "(\<forall>x \<in> set xs. x = v) \<Longrightarrow> sorted_wrt (\<ge>) (xs :: 'a::linorder list)"
  by (induction xs) auto

lemma sorted_merge_left:
  fixes left :: "(int \<times> 'v::linorder) list"
  assumes "sorted_wrt (\<ge>) (map snd left)"
  shows "sorted_wrt (\<ge>) (map (\<lambda>r. fst (snd r)) (merge_left left right))"
  using assms
proof (induction left)
  case Nil
  show ?case by (simp add: merge_left_Nil)
next
  case (Cons l left)
  obtain m v where l: "l = (m, v)" by (cases l)
  let ?chunk = "map (\<lambda>r. fst (snd r)) (joined_rows right (m, v))"
  let ?rest = "map (\<lambda>r. fst (snd r)) (merge_left left right)"
  have chunk: "\<forall>x \<in> set ?chunk. x = v"
    using joined_rows_fields [of _ right m v] by auto
  have below: "\<forall>y \<in> snd ` set left. y \<le> v"
    using Cons.prems l by auto
  have rest: "y \<le> v" if "y \<in> set ?rest" for y
  proof -
    from that obtain r where "r \<in> set (merge_left left right)" and y: "y = fst (snd r)"
      by auto
    then have "y \<in> snd ` set left"
      using values_merge_left [of left right] by blast
    with below show ?thesis by blast
  qed
  have "sorted_wrt (\<ge>) ?rest"
    using Cons by simp
  moreover have "sorted_wrt (\<ge>) ?chunk"
    using chunk by (rule sorted_wrt_const)
  moreover have "\<forall>x \<in> set ?chunk. \<forall>y \<in> set ?rest. y \<le> x"
  proof (intro ballI)
    fix x y
    assume "x \<in> set ?chunk" and "y \<in> set ?rest"
    with chunk rest [of y] show "y \<le> x" by auto
  qed
  ultimately have "sorted_wrt (\<ge>) (?chunk @ ?rest)"
    unfolding sorted_wrt_append by (intro conjI)
  then show ?case
    by (simp only: l merge_left_Cons map_append)
qed

lemma merge_left_keeps:
  assumes "(m, v) \<in> set left"
  shows "\<exists>n. (m, v, n) \<in> set (merge_left left right)"
proof -
  obtain r where r: "r \<in> set (joined_rows right (m, v))"
    using joined_rows_nonempty [of right "(m, v)"] by (cases "joined_rows right (m, v)") auto
  then have "r = (m, v, snd (snd r))"
    using joined_rows_fields [of r right m v] by (cases r) auto
  with r have "(m, v, snd (snd r)) \<in> set (joined_rows right (m, v))" by simp
  with assms have "(m, v, snd (snd r)) \<in> set (merge_left left right)"
    unfolding merge_left_def by auto
  then show ?thesis ..
qed

lemma merge_left_unmatched:
  "(m, v) \<in> set left \<Longrightarrow> m \<notin> fst ` set right \<Longrightarrow> (m, v, None) \<in> set (merge_left left right)"
proof -
  assume l: "(m, v) \<in> set left" and "m \<notin> fst ` set right"
  then have "(m, v, None) \<in> set (joined_rows right (m, v))"
    by (simp add: joined_rows_unmatched)
  with l show ?thesis
    unfolding merge_left_def by auto
qed


section \<open>Properties of the rankings\<close>

lemma keys_groupby: "map fst (groupby key xs) = sort (remdups (map key xs))"
  by (simp add: groupby_def comp_def)





lemma set_drop_duplicates_by_id: "set (drop_duplicates_by id xs) = set xs"
  using drop_seen_keys [of id "[]" xs]
  by (simp add: drop_duplicates_by_def)

lemma set_ship_names:
  "set (ship_names ui) = (\<lambda>c. (mmsi (c_fix c), vessel_name (c_fix c))) ` set (rows ui)"
  by (simp add: ship_names_def set_drop_duplicates_by_id)


lemma rows_with_ship_names:
  "rows (with_ship_names col ui ranked) =
     (if ''vessel_name'' \<in> set (columns ui) then merge_left ranked (ship_names ui)
      else map (\<lambda>(m, v). (m, v, None)) ranked)"
  by (simp add: with_ship_names_def)

lemma with_ship_names_sorted:
  fixes ranked :: "(int \<times> 'v::linorder) list"
  assumes "sorted_wrt (\<ge>) (map snd ranked)"
  shows "sorted_wrt (\<ge>) (map (\<lambda>r. fst (snd r)) (rows (with_ship_names col ui ranked)))"
proof (cases "''vessel_name'' \<in> set (columns ui)")
  case True
  with sorted_merge_left [OF assms] show ?thesis
    by (simp add: with_ship_names_def)
next
  case False
  have "map (\<lambda>r. fst (snd r)) (map (\<lambda>(m, v). (m, v, None :: string option)) ranked) = map snd ranked"
    by (induction ranked) auto
  with assms have "sorted_wrt (\<ge>)
      (map (\<lambda>r. fst (snd r)) (map (\<lambda>(m, v). (m, v, None :: string option)) ranked))"
    by (simp only:)
  with False show ?thesis
    by (simp only: rows_with_ship_names if_False)
qed

lemma with_ship_names_keeps:
  assumes "(m, v) \<in> set ranked"
  shows "\<exists>n. (m, v, n) \<in> set (rows (with_ship_names col ui ranked))"
proof (cases "''vessel_name'' \<in> set (columns ui)")
  case True
  with merge_left_keeps [OF assms] show ?thesis
    by (simp add: with_ship_names_def)
next
  case False
  from assms have "(m, v, None) \<in> (\<lambda>(m, v). (m, v, None)) ` set ranked"
    by (rule rev_image_eqI) simp
  with False show ?thesis
    by (auto simp: with_ship_names_def)
qed

lemma with_ship_names_keys:
  "fst ` set (rows (with_ship_names col ui ranked)) = fst ` set ranked"
proof (cases "''vessel_name'' \<in> set (columns ui)")
  case True
  then show ?thesis
    by (simp add: with_ship_names_def fst_set_merge_left)
next
  case False
  have "fst ` (\<lambda>(m, v). (m, v, None :: string option)) ` set ranked = fst ` set ranked"
    by (force simp: image_iff)
  with False show ?thesis
    by (simp add: with_ship_names_def)
qed

lemma with_ship_names_null:
  assumes r: "r \<in> set (rows (with_ship_names col ui ranked))"
    and none: "\<forall>c \<in> set (rows ui). mmsi (c_fix c) = fst r \<longrightarrow> vessel_name (c_fix c) = None"
  shows "snd (snd r) = None"
proof (cases "''vessel_name'' \<in> set (columns ui)")
  case False
  with r show ?thesis
    by (auto simp: with_ship_names_def)
next
  case True
  with r have "r \<in> set (merge_left ranked (ship_names ui))"
    by (simp add: with_ship_names_def)
  then obtain l where "l \<in> set ranked" and rl: "r \<in> set (joined_rows (ship_names ui) l)"
    by (auto simp: merge_left_def)
  obtain m v where l: "l = (m, v)" by (cases l)
  obtain n where n: "r = (m, v, n)"
    using joined_rows_fields [of r "ship_names ui" m v] rl l by (cases r) auto
  with rl l have "(m, n) \<in> set (ship_names ui) \<or> n = None"
    using joined_rows_name [of m v n "ship_names ui"] by simp
  then show ?thesis
  proof
    assume "(m, n) \<in> set (ship_names ui)"
    then obtain c where "c \<in> set (rows ui)" and "mmsi (c_fix c) = m"
      and "vessel_name (c_fix c) = n"
      by (auto simp: set_ship_names)
    with none n show ?thesis by auto
  next
    assume "n = None"
    with n show ?thesis by simp
  qed
qed




lemma with_ship_names_pairs:
  "(\<lambda>r. (fst r, fst (snd r))) ` set (rows (with_ship_names col ui ranked)) = set ranked"
proof (intro set_eqI iffI)
  fix p
  assume "p \<in> set ranked"
  moreover obtain m v where p: "p = (m, v)" by (cases p)
  ultimately obtain n where "(m, v, n) \<in> set (rows (with_ship_names col ui ranked))"
    using with_ship_names_keeps [of m v ranked col ui] by auto
  then have "(\<lambda>r. (fst r, fst (snd r))) (m, v, n)
      \<in> (\<lambda>r. (fst r, fst (snd r))) ` set (rows (with_ship_names col ui ranked))"
    by (rule imageI)
  with p show "p \<in> (\<lambda>r. (fst r, fst (snd r))) ` set (rows (with_ship_names col ui ranked))"
    by simp
next
  fix p
  assume "p \<in> (\<lambda>r. (fst r, fst (snd r))) ` set (rows (with_ship_names col ui ranked))"
  then obtain r where r: "r \<in> set (rows (with_ship_names col ui ranked))"
    and p: "p = (fst r, fst (snd r))" by auto
  show "p \<in> set ranked"
  proof (cases "''vessel_name'' \<in> set (columns ui)")
    case True
    with r obtain l where l: "l \<in> set ranked" and "r \<in> set (joined_rows (ship_names ui) l)"
      by (auto simp: rows_with_ship_names merge_left_def)
    then have "fst r = fst l \<and> fst (snd r) = snd l"
      using joined_rows_fields [of r "ship_names ui" "fst l" "snd l"] by simp
    with p l show ?thesis by simp
  next
    case False
    with r p show ?thesis
      by (auto simp: rows_with_ship_names)
  qed
qed

lemma Inr_ship_incident_counts:
  "ship_incident_counts f ui = Inr t \<Longrightarrow>
     t = with_ship_names ''incident_count'' ui (ranked_incident_counts f ui)"
  by (simp add: ship_incident_counts_def split: if_splits)

lemma Inr_ship_area_sum:
  "ship_area_sum f ui = Inr t \<Longrightarrow>
     t = with_ship_names ''total_area_sq_km'' ui (ranked_area_sums f ui)"
  by (simp add: ship_area_sum_def split: if_splits)

lemma Inr_spill_candidate_counts:
  "spill_candidate_counts f df = Inr t \<Longrightarrow>
     rows t = sort_values_desc f snd (vessel_counts (rows df))"
  by (auto simp: spill_candidate_counts_def split: if_splits)

text \<open>
  C8 (as amended). Whenever the library's position function sorts (\<open>nargsort_ok\<close>),
  the three ranking tables are in non-increasing order of their aggregate: incident
  counts per vessel by count, area sums per vessel by total area (both after the name
  join), and distinct-vessel counts per spill by count; and they hold exactly the
  aggregates of the groups. Nothing is stated about the order of equal aggregates:
  the sort is called with its default kind, which is not stable.
\<close>

theorem rankings_sorted_descending:
  assumes "nargsort_ok sort_n" and "nargsort_ok sort_r"
  shows "(ship_incident_counts sort_n ui = Inr counts \<longrightarrow>
            sorted_wrt (\<ge>) (map (\<lambda>r. fst (snd r)) (rows counts)) \<and>
            (\<lambda>r. (fst r, fst (snd r))) ` set (rows counts) = set (incident_counts (rows ui))) \<and>
         (ship_area_sum sort_r ui = Inr areas \<longrightarrow>
            sorted_wrt (\<ge>) (map (\<lambda>r. fst (snd r)) (rows areas)) \<and>
            (\<lambda>r. (fst r, fst (snd r))) ` set (rows areas) = set (area_sums (rows ui))) \<and>
         (spill_candidate_counts sort_n df = Inr spill_counts \<longrightarrow>
            sorted_wrt (\<ge>) (map snd (rows spill_counts)) \<and>
            mset (rows spill_counts) = mset (vessel_counts (rows df)))"
proof (intro conjI impI)
  assume "ship_incident_counts sort_n ui = Inr counts"
  then have t: "counts = with_ship_names ''incident_count'' ui (ranked_incident_counts sort_n ui)"
    by (rule Inr_ship_incident_counts)
  have "sorted_wrt (\<ge>) (map snd (ranked_incident_counts sort_n ui))"
    unfolding ranked_incident_counts_def using assms(1) by (rule sort_values_desc_sorted)
  then show "sorted_wrt (\<ge>) (map (\<lambda>r. fst (snd r)) (rows counts))"
    unfolding t by (rule with_ship_names_sorted)
  have "set (ranked_incident_counts sort_n ui) = set (incident_counts (rows ui))"
    unfolding ranked_incident_counts_def
    using sort_values_desc_mset [OF assms(1)] by (rule mset_eq_setD)
  then show "(\<lambda>r. (fst r, fst (snd r))) ` set (rows counts) = set (incident_counts (rows ui))"
    unfolding t by (simp only: with_ship_names_pairs)
next
  assume "ship_area_sum sort_r ui = Inr areas"
  then have t: "areas = with_ship_names ''total_area_sq_km'' ui (ranked_area_sums sort_r ui)"
    by (rule Inr_ship_area_sum)
  have "sorted_wrt (\<ge>) (map snd (ranked_area_sums sort_r ui))"
    unfolding ranked_area_sums_def using assms(2) by (rule sort_values_desc_sorted)
  then show "sorted_wrt (\<ge>) (map (\<lambda>r. fst (snd r)) (rows areas))"
    unfolding t by (rule with_ship_names_sorted)
  have "set (ranked_area_sums sort_r ui) = set (area_sums (rows ui))"
    unfolding ranked_area_sums_def
    using sort_values_desc_mset [OF assms(2)] by (rule mset_eq_setD)
  then show "(\<lambda>r. (fst r, fst (snd r))) ` set (rows areas) = set (area_sums (rows ui))"
    unfolding t by (simp only: with_ship_names_pairs)
next
  assume "spill_candidate_counts sort_n df = Inr spill_counts"
  then have t: "rows spill_counts = sort_values_desc sort_n snd (vessel_counts (rows df))"
    by (rule Inr_spill_candidate_counts)
  show "sorted_wrt (\<ge>) (map snd (rows spill_counts))"
    unfolding t using assms(1) by (rule sort_values_desc_sorted)
  show "mset (rows spill_counts) = mset (vessel_counts (rows df))"
    unfolding t using assms(1) by (rule sort_values_desc_mset)
qed

text \<open>Vessel 456 with two incidents and vessel 123 with one, under a sort that
  keeps ties in place.\<close>

theorem rankings_sorted_descending_witness:
  "nargsort_ok (nargsort_stable :: nat list \<Rightarrow> nat list) \<and>
   nargsort_ok (nargsort_stable :: rat list \<Rightarrow> nat list) \<and>
   ship_incident_counts nargsort_stable three_incidents = Inr three_incidents_counts \<and>
   ship_area_sum nargsort_stable three_incidents = Inr three_incidents_areas \<and>
   spill_candidate_counts nargsort_stable three_incidents = Inr three_incidents_spills \<and>
   sorted_wrt (\<ge>) (map (\<lambda>r. fst (snd r)) (rows three_incidents_counts)) \<and>
   sorted_wrt (\<ge>) (map (\<lambda>r. fst (snd r)) (rows three_incidents_areas)) \<and>
   sorted_wrt (\<ge>) (map snd (rows three_incidents_spills))"
proof -
  have a: "ship_incident_counts nargsort_stable three_incidents = Inr three_incidents_counts"
    by code_simp
  have b: "ship_area_sum nargsort_stable three_incidents = Inr three_incidents_areas"
    by code_simp
  have c: "spill_candidate_counts nargsort_stable three_incidents = Inr three_incidents_spills"
    by code_simp
  from rankings_sorted_descending [OF nargsort_stable_ok nargsort_stable_ok,
      of three_incidents three_incidents_counts three_incidents_areas three_incidents
        three_incidents_spills] a b c
  show ?thesis
    by (simp add: nargsort_stable_ok)
qed

text \<open>
  C8 (as stated) fails on ties. Vessels 123 and 456 have one incident each, and the
  groups come in the order 123, 456. \<open>nargsort_reversing\<close> sorts (it meets
  \<open>nargsort_ok\<close>), and with it the ranking lists 456 before 123; under
  \<open>nargsort_stable\<close> it lists 123 first. The order of ties depends on the sort
  algorithm, which the call leaves at its non-stable default.
\<close>

theorem ranking_ties_counterexample:
  "nargsort_ok (nargsort_reversing :: nat list \<Rightarrow> nat list) \<and>
   incident_counts (rows tied_incidents) = [(123, 1), (456, 1)] \<and>
   ship_incident_counts nargsort_reversing tied_incidents =
     Inr \<lparr>columns = [''mmsi'', ''incident_count''], rows = [(456, 1, None), (123, 1, None)]\<rparr> \<and>
   ship_incident_counts nargsort_stable tied_incidents =
     Inr \<lparr>columns = [''mmsi'', ''incident_count''], rows = [(123, 1, None), (456, 1, None)]\<rparr>"
proof -
  have "ship_incident_counts nargsort_stable tied_incidents =
     Inr \<lparr>columns = [''mmsi'', ''incident_count''], rows = [(123, 1, None), (456, 1, None)]\<rparr>"
    by code_simp
  moreover
  have "incident_counts (rows tied_incidents) = [(123, 1), (456, 1)]"
    by code_simp
  moreover have "ship_incident_counts nargsort_reversing tied_incidents =
     Inr \<lparr>columns = [''mmsi'', ''incident_count''], rows = [(456, 1, None), (123, 1, None)]\<rparr>"
    by code_simp
  ultimately show ?thesis
    using nargsort_reversing_ok by blast
qed

text \<open>
  C9. The left join of the names never drops a row: the joined table has the same
  \<open>mmsi\<close> values as the left table, every left row occurs in it, and a left row without
  a matching name occurs with a missing name. For the two ranking tables of the
  script: every row of the ranking before the join is in the table after it, and a row
  of a vessel none of whose candidates has a name carries a missing name.
\<close>

theorem name_join_keeps_rows:
  "fst ` set (merge_left left right) = fst ` set left \<and>
   (\<forall>l \<in> set left. \<exists>n. (fst l, snd l, n) \<in> set (merge_left left right)) \<and>
   (\<forall>l \<in> set left. fst l \<notin> fst ` set right \<longrightarrow>
        (fst l, snd l, None) \<in> set (merge_left left right)) \<and>
   (ship_incident_counts sort_n ui = Inr counts \<longrightarrow>
      fst ` set (rows counts) = fst ` set (ranked_incident_counts sort_n ui) \<and>
      (\<forall>l \<in> set (ranked_incident_counts sort_n ui). \<exists>n. (fst l, snd l, n) \<in> set (rows counts)) \<and>
      (\<forall>r \<in> set (rows counts).
         (\<forall>c \<in> set (rows ui). mmsi (c_fix c) = fst r \<longrightarrow> vessel_name (c_fix c) = None)
           \<longrightarrow> snd (snd r) = None)) \<and>
   (ship_area_sum sort_r ui = Inr areas \<longrightarrow>
      fst ` set (rows areas) = fst ` set (ranked_area_sums sort_r ui) \<and>
      (\<forall>l \<in> set (ranked_area_sums sort_r ui). \<exists>n. (fst l, snd l, n) \<in> set (rows areas)) \<and>
      (\<forall>r \<in> set (rows areas).
         (\<forall>c \<in> set (rows ui). mmsi (c_fix c) = fst r \<longrightarrow> vessel_name (c_fix c) = None)
           \<longrightarrow> snd (snd r) = None))"
proof (intro conjI impI ballI)
  show "fst ` set (merge_left left right) = fst ` set left"
    by (rule fst_set_merge_left)
  show "\<exists>n. (fst l, snd l, n) \<in> set (merge_left left right)" if "l \<in> set left" for l
    using that by (intro merge_left_keeps) simp
  show "(fst l, snd l, None) \<in> set (merge_left left right)"
    if "l \<in> set left" and "fst l \<notin> fst ` set right" for l
    using that by (intro merge_left_unmatched) simp_all
next
  assume "ship_incident_counts sort_n ui = Inr counts"
  then have t: "counts = with_ship_names ''incident_count'' ui (ranked_incident_counts sort_n ui)"
    by (rule Inr_ship_incident_counts)
  show "fst ` set (rows counts) = fst ` set (ranked_incident_counts sort_n ui)"
    unfolding t by (rule with_ship_names_keys)
  show "\<exists>n. (fst l, snd l, n) \<in> set (rows counts)"
    if "l \<in> set (ranked_incident_counts sort_n ui)" for l
    unfolding t using that by (intro with_ship_names_keeps) simp
  show "snd (snd r) = None"
    if "r \<in> set (rows counts)"
      and "\<forall>c \<in> set (rows ui). mmsi (c_fix c) = fst r \<longrightarrow> vessel_name (c_fix c) = None" for r
    using that unfolding t by (rule with_ship_names_null)
next
  assume "ship_area_sum sort_r ui = Inr areas"
  then have t: "areas = with_ship_names ''total_area_sq_km'' ui (ranked_area_sums sort_r ui)"
    by (rule Inr_ship_area_sum)
  show "fst ` set (rows areas) = fst ` set (ranked_area_sums sort_r ui)"
    unfolding t by (rule with_ship_names_keys)
  show "\<exists>n. (fst l, snd l, n) \<in> set (rows areas)"
    if "l \<in> set (ranked_area_sums sort_r ui)" for l
    unfolding t using that by (intro with_ship_names_keeps) simp
  show "snd (snd r) = None"
    if "r \<in> set (rows areas)"
      and "\<forall>c \<in> set (rows ui). mmsi (c_fix c) = fst r \<longrightarrow> vessel_name (c_fix c) = None" for r
    using that unfolding t by (rule with_ship_names_null)
qed

text \<open>A left row without a name on the right keeps a missing name, and the ranking
  of \<open>three_incidents\<close> keeps both vessels through the join.\<close>

theorem name_join_keeps_rows_witness:
  "(123, 1) \<in> set [(456 :: int, 2 :: nat), (123, 1)] \<and>
   123 \<notin> fst ` set [(456 :: int, Some ''ALFA'')] \<and>
   (123, 1, None) \<in> set (merge_left [(456, 2 :: nat), (123, 1)] [(456, Some ''ALFA'')]) \<and>
   ship_incident_counts nargsort_stable three_incidents = Inr three_incidents_counts \<and>
   (123, 1) \<in> set (ranked_incident_counts nargsort_stable three_incidents) \<and>
   (\<exists>n. (123, 1, n) \<in> set (rows three_incidents_counts)) \<and>
   fst ` set (rows three_incidents_counts)
     = fst ` set (ranked_incident_counts nargsort_stable three_incidents)"
proof -
  have a: "ship_incident_counts nargsort_stable three_incidents = Inr three_incidents_counts"
    by code_simp
  have b: "ranked_incident_counts nargsort_stable three_incidents = [(456, 2), (123, 1)]"
    by code_simp
  have l: "(123, 1) \<in> set [(456 :: int, 2 :: nat), (123, 1)]"
    by simp
  have u: "fst (123 :: int, 1 :: nat) \<notin> fst ` set [(456 :: int, Some ''ALFA'')]"
    by simp
  note t = name_join_keeps_rows [of "[(456, 2 :: nat), (123, 1)]" "[(456, Some ''ALFA'')]"
      nargsort_stable three_incidents three_incidents_counts nargsort_stable
      three_incidents_areas]
  from t [THEN conjunct2, THEN conjunct2, THEN conjunct1] have "\<forall>l \<in> set [(456 :: int, 2 :: nat), (123, 1)].
      fst l \<notin> fst ` set [(456 :: int, Some ''ALFA'')] \<longrightarrow>
      (fst l, snd l, None) \<in> set (merge_left [(456, 2), (123, 1)] [(456, Some ''ALFA'')])" .
  from this l have "fst (123 :: int, 1 :: nat) \<notin> fst ` set [(456 :: int, Some ''ALFA'')] \<longrightarrow>
      (fst (123 :: int, 1 :: nat), snd (123 :: int, 1 :: nat), None)
        \<in> set (merge_left [(456, 2), (123, 1)] [(456, Some ''ALFA'')])"
    by (rule bspec)
  with u have m: "(123, 1, None) \<in> set (merge_left [(456, 2 :: nat), (123, 1)] [(456, Some ''ALFA'')])"
    by simp
  from t a have k: "fst ` set (rows three_incidents_counts)
      = fst ` set (ranked_incident_counts nargsort_stable three_incidents)"
    and e: "\<forall>l \<in> set (ranked_incident_counts nargsort_stable three_incidents).
      \<exists>n. (fst l, snd l, n) \<in> set (rows three_incidents_counts)"
    by simp_all
  from b have r: "(123, 1) \<in> set (ranked_incident_counts nargsort_stable three_incidents)"
    by simp
  from e r have "\<exists>n. (fst (123 :: int, 1 :: nat), snd (123 :: int, 1 :: nat), n)
      \<in> set (rows three_incidents_counts)"
    by (rule bspec)
  then have "\<exists>n. (123, 1, n) \<in> set (rows three_incidents_counts)"
    by simp
  with a k m r show ?thesis
    by simp
qed



section \<open>Properties of the loaders\<close>










text \<open>What the spill loader does with a file that has the required columns: it
  raises when a date or time column is typed, and returns otherwise.\<close>

lemma load_spills_data_typed:
  assumes "missing_columns [''slick_name'', ''area_sys''] gdf = []" and "typed_date_time gdf"
  shows "load_spills_data P Q (Some gdf) = ([Info, Success], Inl TypeError)"
  using assms by (simp add: load_spills_data_def)





section \<open>Properties of the analytics block\<close>

lemma assign_time_to_detection_rows:
  assumes "assign_time_to_detection df = Inr df'"
  shows "columns df' = assign_column ''time_to_detection'' (columns df)"
    and "map c_fix (rows df') = map c_fix (rows df)"
    and "map c_spill (rows df') = map c_spill (rows df)"
    and "map time_to_detection (rows df')
           = map (\<lambda>c. Some (detection_date (c_spill c) - timestamp (c_fix c))) (rows df)"
  using assms by (auto simp: assign_time_to_detection_def split: if_splits)

text \<open>
  What the block leaves behind when it runs through: the object of \<open>candidates_df\<close>
  is overwritten by the column assignment, and two objects are new, the deduplicated
  frame and the prime suspects.
\<close>

lemma analytics_block_Inr:
  assumes r: "r < length h" and run: "analytics_block sort_n sort_r h r = Inr b"
  shows "\<exists>ui cf ps.
     drop_duplicates (h ! r) = Inr ui \<and>
     assign_time_to_detection (h ! r) = Inr cf \<and>
     prime_suspects_df cf = Inr ps \<and>
     objects b = h[r := cf] @ [ui, ps] \<and>
     var_candidates_df b = r \<and> var_unique_incidents b = length h \<and>
     var_prime_suspects_df b = Suc (length h) \<and>
     ship_incident_counts sort_n ui = Inr (var_ship_incident_counts b) \<and>
     ship_area_sum sort_r ui = Inr (var_ship_area_sum b) \<and>
     spill_candidate_counts sort_n (h ! r) = Inr (var_spill_candidate_counts b)"
proof -
  from run obtain ui where ui: "drop_duplicates (h ! r) = Inr ui"
    by (auto simp: analytics_block_def call_drop_duplicates_def split: sum.splits)
  then have 1: "call_drop_duplicates r h = Inr (length h, h @ [ui])"
    by (simp add: call_drop_duplicates_def new_frame_def)
  have at_ui: "(h @ [ui]) ! length h = ui" and at_r: "(h @ [ui]) ! r = h ! r"
    using r by (simp_all add: nth_append)
  from run obtain counts where counts: "ship_incident_counts sort_n ui = Inr counts"
    by (auto simp: analytics_block_def 1 at_ui split: sum.splits)
  from run obtain areas where areas: "ship_area_sum sort_r ui = Inr areas"
    by (auto simp: analytics_block_def 1 at_ui counts split: sum.splits)
  from run obtain spill_counts where
    spill_counts: "spill_candidate_counts sort_n (h ! r) = Inr spill_counts"
    by (auto simp: analytics_block_def 1 at_ui at_r counts areas split: sum.splits)
  from run obtain cf where cf: "assign_time_to_detection (h ! r) = Inr cf"
    by (auto simp: analytics_block_def 1 at_ui at_r counts areas spill_counts
        setitem_time_to_detection_def split: sum.splits)
  then have 2: "setitem_time_to_detection r (h @ [ui]) = Inr (h[r := cf] @ [ui])"
    using r by (simp add: setitem_time_to_detection_def at_r list_update_append)
  have at_cf: "(h[r := cf] @ [ui]) ! r = cf"
    using r by (simp add: nth_append)
  from run obtain ps where ps: "prime_suspects_df cf = Inr ps"
    by (auto simp: analytics_block_def 1 2 at_ui at_r at_cf counts areas spill_counts
        call_loc_prime_suspects_def split: sum.splits)
  then have 3: "call_loc_prime_suspects r (h[r := cf] @ [ui])
      = Inr (Suc (length h), h[r := cf] @ [ui, ps])"
    by (simp add: call_loc_prime_suspects_def at_cf new_frame_def)
  from run have "objects b = h[r := cf] @ [ui, ps] \<and>
     var_candidates_df b = r \<and> var_unique_incidents b = length h \<and>
     var_prime_suspects_df b = Suc (length h) \<and>
     var_ship_incident_counts b = counts \<and> var_ship_area_sum b = areas \<and>
     var_spill_candidate_counts b = spill_counts"
    by (auto simp: analytics_block_def 1 2 3 at_ui at_r counts areas spill_counts
        split: sum.splits option.splits)
  with ui cf ps counts areas spill_counts show ?thesis
    by simp
qed

lemma run_analytics_Inr:
  assumes "run_analytics sort_n sort_r df = Inr s"
  shows "drop_duplicates df = Inr (st_unique_incidents s)"
    and "assign_time_to_detection df = Inr (st_candidates_df s)"
    and "prime_suspects_df (st_candidates_df s) = Inr (st_prime_suspects_df s)"
    and "ship_incident_counts sort_n (st_unique_incidents s) = Inr (st_ship_incident_counts s)"
    and "ship_area_sum sort_r (st_unique_incidents s) = Inr (st_ship_area_sum s)"
    and "spill_candidate_counts sort_n df = Inr (st_spill_candidate_counts s)"
proof -
  from assms obtain b where b: "analytics_block sort_n sort_r [df] 0 = Inr b"
    and s: "s = read_variables b"
    by (cases "analytics_block sort_n sort_r [df] 0") (auto simp: run_analytics_def)
  from analytics_block_Inr [OF _ b] obtain ui cf ps where
     "drop_duplicates df = Inr ui" "assign_time_to_detection df = Inr cf"
     "prime_suspects_df cf = Inr ps" "objects b = [cf, ui, ps]"
     "var_candidates_df b = 0" "var_unique_incidents b = 1" "var_prime_suspects_df b = 2"
     "ship_incident_counts sort_n ui = Inr (var_ship_incident_counts b)"
     "ship_area_sum sort_r ui = Inr (var_ship_area_sum b)"
     "spill_candidate_counts sort_n df = Inr (var_spill_candidate_counts b)"
    by auto
  then show "drop_duplicates df = Inr (st_unique_incidents s)"
    and "assign_time_to_detection df = Inr (st_candidates_df s)"
    and "prime_suspects_df (st_candidates_df s) = Inr (st_prime_suspects_df s)"
    and "ship_incident_counts sort_n (st_unique_incidents s) = Inr (st_ship_incident_counts s)"
    and "ship_area_sum sort_r (st_unique_incidents s) = Inr (st_ship_area_sum s)"
    and "spill_candidate_counts sort_n df = Inr (st_spill_candidate_counts s)"
    by (simp_all add: s read_variables_def)
qed

text \<open>
  C6 (as amended). When the analytics block runs through, the variable
  \<open>candidates_df\<close> still names the object it named, and that object is the frame as
  received with the column \<open>time_to_detection\<close> assigned (line 238): the same rows
  in the same order with the same fix and spill columns, and
  \<open>detection_date - timestamp\<close> in the new column. Every other frame that existed
  is as it was. \<open>unique_incidents\<close> and \<open>prime_suspects_df\<close> name two new objects;
  \<open>unique_incidents\<close> holds the deduplicated frame as computed from the frame
  received, so the assignment does not reach it.
\<close>

theorem analytics_candidate_frame:
  assumes "candidates_df < length objects0"
    and "analytics_block sort_n sort_r objects0 candidates_df = Inr b"
  shows "var_candidates_df b = candidates_df \<and>
     length (objects b) = length objects0 + 2 \<and>
     (\<forall>r < length objects0. r \<noteq> candidates_df \<longrightarrow> objects b ! r = objects0 ! r) \<and>
     assign_time_to_detection (objects0 ! candidates_df) = Inr (objects b ! candidates_df) \<and>
     columns (objects b ! candidates_df)
       = assign_column ''time_to_detection'' (columns (objects0 ! candidates_df)) \<and>
     map c_fix (rows (objects b ! candidates_df)) = map c_fix (rows (objects0 ! candidates_df)) \<and>
     map c_spill (rows (objects b ! candidates_df))
       = map c_spill (rows (objects0 ! candidates_df)) \<and>
     map time_to_detection (rows (objects b ! candidates_df))
       = map (\<lambda>c. Some (detection_date (c_spill c) - timestamp (c_fix c)))
           (rows (objects0 ! candidates_df)) \<and>
     var_unique_incidents b = length objects0 \<and>
     var_prime_suspects_df b = length objects0 + 1 \<and>
     drop_duplicates (objects0 ! candidates_df) = Inr (objects b ! var_unique_incidents b)"
proof -
  from analytics_block_Inr [OF assms] obtain ui cf ps where
    ui: "drop_duplicates (objects0 ! candidates_df) = Inr ui"
    and cf: "assign_time_to_detection (objects0 ! candidates_df) = Inr cf"
    and objs: "objects b = objects0[candidates_df := cf] @ [ui, ps]"
    and vars: "var_candidates_df b = candidates_df" "var_unique_incidents b = length objects0"
      "var_prime_suspects_df b = Suc (length objects0)"
    by blast
  have at_c: "objects b ! candidates_df = cf"
    using assms(1) by (simp add: objs nth_append)
  have at_u: "objects b ! length objects0 = ui"
    by (simp add: objs nth_append)
  have others: "objects b ! r = objects0 ! r" if "r < length objects0" "r \<noteq> candidates_df" for r
    using that by (simp add: objs nth_append)
  have len: "length (objects b) = length objects0 + 2"
    by (simp add: objs)
  show ?thesis
    using ui cf vars others assign_time_to_detection_rows [OF cf] len
    by (simp add: at_c at_u)
qed

text \<open>
  C6 (as stated) fails: the prime-suspect step assigns a column to the candidate frame
  it is given. For \<open>three_incidents\<close> the frame has one more column afterwards, and its
  rows carry values where they had none.
\<close>

theorem analytics_candidate_frame_counterexample:
  "columns three_incidents = candidate_columns \<and>
   map_sum id (\<lambda>s. columns (st_candidates_df s))
       (run_analytics nargsort_stable nargsort_stable three_incidents)
     = Inr (candidate_columns @ [''time_to_detection'']) \<and>
   map time_to_detection (rows three_incidents) = [None, None, None] \<and>
   map_sum id (\<lambda>s. map time_to_detection (rows (st_candidates_df s)))
       (run_analytics nargsort_stable nargsort_stable three_incidents)
     = Inr [Some (6 * hour), Some (4 * hour), Some (4 * hour)]"
  by code_simp

text \<open>The block runs through with \<open>two_fixes_one_vessel\<close> and \<open>three_incidents\<close> as
  the frames that exist and \<open>candidates_df\<close> naming the second: the first is as it
  was, the second has the new column, and the deduplicated frame is a third object
  without it.\<close>

theorem analytics_candidate_frame_witness:
  "(1::nat) < length [two_fixes_one_vessel, three_incidents] \<and>
   map_sum id (\<lambda>b. (var_candidates_df b, var_unique_incidents b, var_prime_suspects_df b,
                     length (objects b)))
       (analytics_block nargsort_stable nargsort_stable [two_fixes_one_vessel, three_incidents] 1)
     = Inr (1, 2, 3, 4) \<and>
   map_sum id (\<lambda>b. objects b ! 0)
       (analytics_block nargsort_stable nargsort_stable [two_fixes_one_vessel, three_incidents] 1)
     = Inr two_fixes_one_vessel \<and>
   map_sum id (\<lambda>b. columns (objects b ! 1))
       (analytics_block nargsort_stable nargsort_stable [two_fixes_one_vessel, three_incidents] 1)
     = Inr (assign_column ''time_to_detection'' (columns three_incidents)) \<and>
   map_sum id (\<lambda>b. map c_fix (rows (objects b ! 1)))
       (analytics_block nargsort_stable nargsort_stable [two_fixes_one_vessel, three_incidents] 1)
     = Inr (map c_fix (rows three_incidents)) \<and>
   map_sum id (\<lambda>b. objects b ! 2)
       (analytics_block nargsort_stable nargsort_stable [two_fixes_one_vessel, three_incidents] 1)
     = drop_duplicates three_incidents"
proof -
  obtain b where b: "analytics_block nargsort_stable nargsort_stable
      [two_fixes_one_vessel, three_incidents] 1 = Inr b"
  proof -
    have "map_sum id (\<lambda>b. ()) (analytics_block nargsort_stable nargsort_stable
        [two_fixes_one_vessel, three_incidents] 1) = Inr ()"
      by code_simp
    then show ?thesis using that
      by (cases "analytics_block nargsort_stable nargsort_stable
          [two_fixes_one_vessel, three_incidents] 1") auto
  qed
  have l: "(1::nat) < length [two_fixes_one_vessel, three_incidents]"
    by simp
  note t = analytics_candidate_frame [OF l b]
  from t [THEN conjunct2, THEN conjunct2, THEN conjunct1, rule_format, of 0]
  have "objects b ! 0 = two_fixes_one_vessel"
    by simp
  moreover have "analytics_block nargsort_stable nargsort_stable
      [two_fixes_one_vessel, three_incidents] (Suc 0) = Inr b"
    using b by simp
  ultimately show ?thesis
    using t l by (simp add: numeral_2_eq_2)
qed

subsection \<open>Prime suspects\<close>

text \<open>
  What the selection does when every candidate row has an index label of its own
  (no fix lies inside two spills) and the column \<open>time_to_detection\<close> is filled in:
  one row per spill, in the order of the spill identifiers, each a candidate of its
  spill with the least time to detection. Candidates of the matcher never have a
  negative time to detection.
\<close>

lemma find_candidates_nonneg:
  assumes "find_candidates spills_gdf vessels_gdf w = Inr df" and "c \<in> set (rows df)"
  shows "0 \<le> detection_date (c_spill c) - timestamp (c_fix c)"
proof (cases "spills_gdf = None \<or> vessels_gdf = None")
  case True
  with assms show ?thesis
    by (auto simp: find_candidates_not_loaded rows_GeoDataFrame)
next
  case False
  then obtain ss vs where "spills_gdf = Some ss" "vessels_gdf = Some vs"
    by auto
  with assms show ?thesis
    by (auto simp: find_candidates_Inr in_window_def)
qed

lemma some_values_simps:
  "some_values [] = {}"
  "some_values ((l, None) # xs) = some_values xs"
  "some_values ((l, Some v) # xs) = insert (l, v) (some_values xs)"
  by (auto simp: some_values_def)

lemma idxmin_from_least:
  "idxmin_from best xs = Some l \<Longrightarrow>
     \<exists>v. (l, v) \<in> set_option best \<union> some_values xs \<and>
         (\<forall>p \<in> set_option best \<union> some_values xs. v \<le> snd p)"
proof (induction best xs rule: idxmin_from.induct)
  case (1 best)
  then show ?case by (cases best) (auto simp: some_values_simps)
next
  case (2 best l' xs)
  then show ?case by (simp add: some_values_simps)
next
  case (3 l' v xs)
  then show ?case by (simp add: some_values_simps)
next
  case (4 bl bv l' v xs)
  show ?case
  proof (cases "v < bv")
    case True
    with 4 obtain w where "(l, w) \<in> set_option (Some (l', v)) \<union> some_values xs"
      and "\<forall>p \<in> set_option (Some (l', v)) \<union> some_values xs. w \<le> snd p" by auto
    with True show ?thesis
      by (intro exI [of _ w]) (auto simp: some_values_simps)
  next
    case False
    with 4 obtain w where "(l, w) \<in> set_option (Some (bl, bv)) \<union> some_values xs"
      and "\<forall>p \<in> set_option (Some (bl, bv)) \<union> some_values xs. w \<le> snd p" by auto
    with False show ?thesis
      by (intro exI [of _ w]) (auto simp: some_values_simps)
  qed
qed

lemma idxmin_from_None:
  "idxmin_from best xs = None \<longleftrightarrow> best = None \<and> some_values xs = {}"
  by (induction best xs rule: idxmin_from.induct) (auto simp: some_values_simps)


lemma group_idxmin:
  assumes "g \<noteq> []" and "\<forall>c \<in> set g. time_to_detection c \<noteq> None"
  shows "\<exists>c \<in> set g.
     idxmin (map (\<lambda>c. (fix_index (c_fix c), time_to_detection c)) g) = Some (fix_index (c_fix c)) \<and>
     (\<forall>d \<in> set g. \<forall>v w. time_to_detection c = Some v \<longrightarrow> time_to_detection d = Some w
         \<longrightarrow> v \<le> w)"
proof -
  let ?xs = "map (\<lambda>c. (fix_index (c_fix c), time_to_detection c)) g"
  from assms obtain c0 v0 where "c0 \<in> set g" and "time_to_detection c0 = Some v0"
    by (cases g) auto
  then have "(fix_index (c_fix c0), v0) \<in> some_values ?xs"
    by (force simp: some_values_def)
  then have "idxmin ?xs \<noteq> None"
    by (auto simp: idxmin_def idxmin_from_None)
  then obtain l where l: "idxmin_from None ?xs = Some l"
    by (auto simp: idxmin_def)
  from idxmin_from_least [OF l] obtain v where v: "(l, v) \<in> some_values ?xs"
    and least: "\<forall>p \<in> some_values ?xs. v \<le> snd p" by auto
  from v obtain c where c: "c \<in> set g" and lc: "fix_index (c_fix c) = l"
    and vc: "time_to_detection c = Some v"
    by (auto simp: some_values_def)
  have "v' \<le> w" if "d \<in> set g" and "time_to_detection c = Some v'"
    and "time_to_detection d = Some w" for d v' w
  proof -
    from that(1,3) have "(fix_index (c_fix d), w) \<in> some_values ?xs"
      by (force simp: some_values_def)
    with least have "v \<le> w" by auto
    with that(2) vc show ?thesis by simp
  qed
  with c lc l show ?thesis
    by (auto simp: idxmin_def)
qed

lemma unique_label_row:
  "distinct (map f xs) \<Longrightarrow> x \<in> set xs \<Longrightarrow> filter (\<lambda>y. f y = f x) xs = [x]"
proof (induction xs)
  case Nil
  then show ?case by simp
next
  case (Cons y ys)
  show ?case
  proof (cases "x = y")
    case True
    with Cons.prems have "\<forall>z \<in> set ys. f z \<noteq> f x" by (auto simp: image_iff)
    then have "filter (\<lambda>z. f z = f x) ys = []" by (simp add: filter_empty_conv)
    with True show ?thesis by simp
  next
    case False
    with Cons.prems have "x \<in> set ys" by simp
    moreover from this Cons.prems have "f y \<noteq> f x" by (auto simp: image_iff)
    ultimately show ?thesis using Cons by simp
  qed
qed

lemma loc_prime_labels:
  assumes d: "distinct (map (\<lambda>c. fix_index (c_fix c)) cs)"
    and some: "\<forall>c \<in> set cs. time_to_detection c \<noteq> None"
    and ks: "set ks \<subseteq> (\<lambda>c. spill_id (c_spill c)) ` set cs"
  shows "\<exists>sel.
     loc (map (\<lambda>k. idxmin (map (\<lambda>c. (fix_index (c_fix c), time_to_detection c))
                         (filter (\<lambda>c. spill_id (c_spill c) = k) cs))) ks) cs = Inr sel \<and>
     map (\<lambda>c. spill_id (c_spill c)) sel = ks \<and>
     (\<forall>p \<in> set sel. p \<in> set cs \<and>
        (\<forall>c \<in> set cs. spill_id (c_spill c) = spill_id (c_spill p) \<longrightarrow>
           (\<forall>v w. time_to_detection p = Some v \<longrightarrow> time_to_detection c = Some w \<longrightarrow> v \<le> w)))"
  using ks
proof (induction ks)
  case Nil
  show ?case by (simp add: loc_def)
next
  case (Cons k ks)
  let ?label = "\<lambda>k. idxmin (map (\<lambda>c. (fix_index (c_fix c), time_to_detection c))
                         (filter (\<lambda>c. spill_id (c_spill c) = k) cs))"
  let ?g = "filter (\<lambda>c. spill_id (c_spill c) = k) cs"
  from Cons.prems have "set ks \<subseteq> (\<lambda>c. spill_id (c_spill c)) ` set cs" by simp
  from Cons.IH [OF this] obtain sel where sel: "loc (map ?label ks) cs = Inr sel"
    and keys: "map (\<lambda>c. spill_id (c_spill c)) sel = ks"
    and prime: "\<forall>p \<in> set sel. p \<in> set cs \<and>
        (\<forall>c \<in> set cs. spill_id (c_spill c) = spill_id (c_spill p) \<longrightarrow>
           (\<forall>v w. time_to_detection p = Some v \<longrightarrow> time_to_detection c = Some w \<longrightarrow> v \<le> w))"
    by blast
  from Cons.prems have "?g \<noteq> []"
    by (auto simp: filter_empty_conv)
  moreover from some have "\<forall>c \<in> set ?g. time_to_detection c \<noteq> None" by simp
  ultimately obtain p where p: "p \<in> set ?g"
    and lp: "?label k = Some (fix_index (c_fix p))"
    and least: "\<forall>c \<in> set ?g. \<forall>v w. time_to_detection p = Some v \<longrightarrow>
        time_to_detection c = Some w \<longrightarrow> v \<le> w"
    using group_idxmin [of ?g] by blast
  from p have pcs: "p \<in> set cs" and pk: "spill_id (c_spill p) = k" by simp_all
  have row: "filter (\<lambda>c. Some (fix_index (c_fix c)) = ?label k) cs = [p]"
    using unique_label_row [OF d pcs] by (simp add: lp)
  from sel have none: "None \<notin> set (map ?label ks)"
    and rest: "concat (map (\<lambda>l. filter (\<lambda>c. Some (fix_index (c_fix c)) = l) cs) (map ?label ks)) = sel"
    by (auto simp: loc_def split: if_splits)
  have "loc (map ?label (k # ks)) cs = Inr (p # sel)"
    using none rest row lp by (simp add: loc_def)
  moreover have "map (\<lambda>c. spill_id (c_spill c)) (p # sel) = k # ks"
    using keys pk by simp
  moreover have "\<forall>q \<in> set (p # sel). q \<in> set cs \<and>
        (\<forall>c \<in> set cs. spill_id (c_spill c) = spill_id (c_spill q) \<longrightarrow>
           (\<forall>v w. time_to_detection q = Some v \<longrightarrow> time_to_detection c = Some w \<longrightarrow> v \<le> w))"
    using prime pcs pk least by auto
  ultimately show ?case
    by (intro exI [of _ "p # sel"] conjI)
qed

lemma prime_suspects_idx_labels:
  "map snd (prime_suspects_idx cs)
     = map (\<lambda>k. idxmin (map (\<lambda>c. (fix_index (c_fix c), time_to_detection c))
                         (filter (\<lambda>c. spill_id (c_spill c) = k) cs)))
         (sort (remdups (map (\<lambda>c. spill_id (c_spill c)) cs)))"
  by (simp add: prime_suspects_idx_def groupby_def comp_def)

lemma prime_suspects_distinct_labels:
  assumes "distinct (map (\<lambda>c. fix_index (c_fix c)) (rows df))"
    and "\<forall>c \<in> set (rows df). time_to_detection c \<noteq> None"
    and "''spill_id'' \<in> set (columns df)" and "''time_to_detection'' \<in> set (columns df)"
  shows "\<exists>sel. prime_suspects_df df = Inr (df\<lparr>rows := sel\<rparr>) \<and>
     map (\<lambda>c. spill_id (c_spill c)) sel
       = sort (remdups (map (\<lambda>c. spill_id (c_spill c)) (rows df))) \<and>
     (\<forall>p \<in> set sel. p \<in> set (rows df) \<and>
        (\<forall>c \<in> set (rows df). spill_id (c_spill c) = spill_id (c_spill p) \<longrightarrow>
           (\<forall>v w. time_to_detection p = Some v \<longrightarrow> time_to_detection c = Some w \<longrightarrow> v \<le> w)))"
proof -
  have "set (sort (remdups (map (\<lambda>c. spill_id (c_spill c)) (rows df))))
      \<subseteq> (\<lambda>c. spill_id (c_spill c)) ` set (rows df)"
    by simp
  from loc_prime_labels [OF assms(1,2) this] obtain sel
    where "loc (map snd (prime_suspects_idx (rows df))) (rows df) = Inr sel"
      and "map (\<lambda>c. spill_id (c_spill c)) sel
       = sort (remdups (map (\<lambda>c. spill_id (c_spill c)) (rows df)))"
      and "\<forall>p \<in> set sel. p \<in> set (rows df) \<and>
        (\<forall>c \<in> set (rows df). spill_id (c_spill c) = spill_id (c_spill p) \<longrightarrow>
           (\<forall>v w. time_to_detection p = Some v \<longrightarrow> time_to_detection c = Some w \<longrightarrow> v \<le> w))"
    unfolding prime_suspects_idx_labels by blast
  with assms(3,4) show ?thesis
    by (intro exI [of _ sel]) (simp add: prime_suspects_df_def)
qed

text \<open>
  C2, at an input where the code departs from it. The fix of vessel 123 lies inside
  both spills, so two candidate rows carry its index label 0. \<open>idxmin\<close> picks label 0
  for S1 and label 1 (vessel 456, one hour before detection) for S2, and \<open>loc\<close>
  returns every row under these labels: the table lists S2 a second time, with
  vessel 123 at six hours, which is not the least time for S2.
\<close>

theorem prime_suspects_overlap:
  "find_candidates (spills_of [spill_S1, spill_S2]) (vessels_of overlapping_fixes) 24
     = Inr overlapping_candidates \<and>
   map incident_summary (rows overlapping_candidates)
     = [(''S1'', 123, None), (''S2'', 123, None), (''S2'', 456, None)] \<and>
   map (\<lambda>c. detection_date (c_spill c) - timestamp (c_fix c)) (rows overlapping_candidates)
     = [6 * hour, 6 * hour, hour] \<and>
   map_sum id (\<lambda>s. map incident_summary (rows (st_prime_suspects_df s)))
       (run_analytics nargsort_stable nargsort_stable overlapping_candidates)
     = Inr [(''S1'', 123, Some (6 * hour)), (''S2'', 123, Some (6 * hour)),
            (''S2'', 456, Some hour)]"
  by code_simp

text \<open>
  C5, at an input where the code departs from it. The only fix lies outside the
  polygon, so the spatial join is empty and \<open>find_candidates\<close> returns
  \<open>gpd.GeoDataFrame()\<close>, a frame without columns. Every aggregation then raises
  \<open>KeyError\<close> for the column it groups by or reads, and the block ends with the first
  of them. (\<open>analytics_on_empty_rows\<close> below is the other empty case: when the time
  filter removes every row the columns remain and all tables are empty.)
\<close>

theorem analytics_fail_without_candidates:
  "find_candidates (spills_of [spill_S1]) (vessels_of outside_fixes) 24 = Inr GeoDataFrame \<and>
   run_analytics nargsort_stable nargsort_stable GeoDataFrame = Inl (KeyError [''mmsi'']) \<and>
   ship_incident_counts nargsort_stable GeoDataFrame = Inl (KeyError [''mmsi'']) \<and>
   ship_area_sum nargsort_stable GeoDataFrame = Inl (KeyError [''mmsi'']) \<and>
   spill_candidate_counts nargsort_stable GeoDataFrame = Inl (KeyError [''spill_id'']) \<and>
   assign_time_to_detection GeoDataFrame = Inl (KeyError [''detection_date'']) \<and>
   prime_suspects_df GeoDataFrame = Inl (KeyError [''spill_id''])"
  by code_simp

lemma nargsort_ok_Nil: "nargsort_ok f \<Longrightarrow> f [] = []"
  unfolding nargsort_ok_def by (metis atLeastLessThan_empty_iff2 list.size(3) set_empty2 less_irrefl)

lemma sort_values_desc_Nil: "nargsort_ok f \<Longrightarrow> sort_values_desc f by [] = []"
  by (simp add: sort_values_desc_def nargsort_ok_Nil)

lemma groupby_Nil: "groupby key [] = []"
  by (simp add: groupby_def)

lemma assign_column_mem: "name \<in> set (assign_column name cols)"
  by (simp add: assign_column_def)

lemma analytics_on_empty_rows:
  assumes "rows df = []"
    and "''mmsi'' \<in> set (columns df)" and "''spill_id'' \<in> set (columns df)"
    and "''area_sq_km'' \<in> set (columns df)" and "''detection_date'' \<in> set (columns df)"
    and "''timestamp'' \<in> set (columns df)"
    and "nargsort_ok sort_n" and "nargsort_ok sort_r"
  shows "\<exists>s. run_analytics sort_n sort_r df = Inr s \<and>
     rows (st_ship_incident_counts s) = [] \<and> rows (st_ship_area_sum s) = [] \<and>
     rows (st_spill_candidate_counts s) = [] \<and> rows (st_prime_suspects_df s) = [] \<and>
     (\<forall>t. st_vessel_type_analysis s = Some t \<longrightarrow> rows t = [])"
proof -
  have dd: "drop_duplicates df = Inr df"
    using assms(1) by (simp add: drop_duplicates_def df_empty_def)
  have c: "\<exists>t. ship_incident_counts sort_n df = Inr t \<and> rows t = []"
    using assms
    by (simp add: ship_incident_counts_def with_ship_names_def ranked_incident_counts_def
        incident_counts_def groupby_Nil sort_values_desc_Nil merge_left_def)
  have a: "\<exists>t. ship_area_sum sort_r df = Inr t \<and> rows t = []"
    using assms
    by (simp add: ship_area_sum_def with_ship_names_def ranked_area_sums_def
        area_sums_def groupby_Nil sort_values_desc_Nil merge_left_def)
  have sc: "\<exists>t. spill_candidate_counts sort_n df = Inr t \<and> rows t = []"
    using assms
    by (simp add: spill_candidate_counts_def vessel_counts_def groupby_Nil sort_values_desc_Nil)
  have at: "\<exists>df'. assign_time_to_detection df = Inr df' \<and> rows df' = [] \<and>
      ''spill_id'' \<in> set (columns df') \<and> ''time_to_detection'' \<in> set (columns df')"
    using assms
    by (auto simp: assign_time_to_detection_def assign_column_def)
  have ps: "\<exists>t. prime_suspects_df df' = Inr t \<and> rows t = []"
    if "rows df' = []" "''spill_id'' \<in> set (columns df')"
       "''time_to_detection'' \<in> set (columns df')" for df'
    using that
    by (simp add: prime_suspects_df_def prime_suspects_idx_def groupby_Nil loc_def)
  have vt: "vessel_type_analysis sort_n df = None \<or>
      (\<exists>t. vessel_type_analysis sort_n df = Some (Inr t) \<and> rows t = [])"
    using assms
    by (simp add: vessel_type_analysis_def type_aggregates_def typed_rows_def
        List.map_filter_simps groupby_Nil sort_values_desc_Nil)
  from at obtain df' where df': "assign_time_to_detection df = Inr df'"
    and "rows df' = []" and "''spill_id'' \<in> set (columns df')"
    and "''time_to_detection'' \<in> set (columns df')" by blast
  with ps obtain suspects where suspects: "prime_suspects_df df' = Inr suspects"
    and "rows suspects = []" by blast
  with c a sc df' vt dd show ?thesis
    by (auto simp: run_analytics_def analytics_block_def call_drop_duplicates_def
        setitem_time_to_detection_def call_loc_prime_suspects_def new_frame_def
        read_variables_def nth_append)
qed

end
